theory Spec2Isabelle
  imports Main "HOL-Library.Word" "HOL-Library.Signed_Division"
begin

unbundle bit_operations_syntax

section \<open>Virtual platform timer (xen/arch/x86/hvm/vpt.c): data model\<close>

text \<open>
  The structures used by vpt.c are declared in headers (asm/hvm/vpt.h, xen/timer.h,
  asm/hvm/vlapic.h, ...). The records below carry the fields that vpt.c reads and writes,
  with the widths vpt.c itself shows (\<open>uint64_t period\<close>, \<open>uint8_t irq\<close>,
  \<open>s_time_t\<close> for host time, \<open>uint64_t max_lag\<close> for guest time).
  Signed 64-bit values are 64-bit words read through \<open>sint\<close>; arithmetic wraps as the
  x86-64 instructions do.
\<close>

type_synonym u8 = "8 word"
type_synonym u32 = "32 word"
type_synonym u64 = "64 word"
type_synonym s_time_t = "64 word"

type_synonym vcpu_ref = nat
type_synonym pt_ref = nat

text \<open>\<open>HVM_PARAM_TIMER_MODE\<close>: the four tick-accounting modes.\<close>

datatype timer_mode =
    HVMPTM_delay_for_missed_ticks
  | HVMPTM_no_delay_for_missed_ticks
  | HVMPTM_no_missed_ticks_pending
  | HVMPTM_one_missed_tick_pending

text \<open>\<open>pt->source\<close>: 0 before the device model has filled it in, else ISA or LAPIC.\<close>

datatype ptsrc = PTSRC_unset | PTSRC_isa | PTSRC_lapic

datatype hvm_intsrc = hvm_intsrc_none | hvm_intsrc_pic | hvm_intsrc_lapic | hvm_intsrc_nmi

record hvm_intack =
  intack_source :: hvm_intsrc
  intack_vector :: u8

text \<open>
  Modelled from the spec: the host one-shot timer facility (\<open>init_timer\<close>,
  \<open>set_timer\<close>, \<open>stop_timer\<close>, \<open>kill_timer\<close>, \<open>migrate_timer\<close>) is an external
  collaborator of vpt.c. A timer has a deadline, the physical CPU it is bound to, whether it
  is armed, and whether it has been killed (a killed timer is not armed again until it is
  initialised anew).
\<close>

record timer =
  expires :: s_time_t
  cpu :: nat
  active :: bool
  killed :: bool

definition init_timer :: "nat \<Rightarrow> timer" where
  "init_timer c = \<lparr>expires = 0, cpu = c, active = False, killed = False\<rparr>"

definition set_timer :: "timer \<Rightarrow> s_time_t \<Rightarrow> timer" where
  "set_timer t e = t\<lparr>expires := e, active := \<not> killed t\<rparr>"

definition stop_timer :: "timer \<Rightarrow> timer" where
  "stop_timer t = t\<lparr>active := False\<rparr>"

definition kill_timer :: "timer \<Rightarrow> timer" where
  "kill_timer t = t\<lparr>active := False, killed := True\<rparr>"

definition migrate_timer :: "timer \<Rightarrow> nat \<Rightarrow> timer" where
  "migrate_timer t c = t\<lparr>cpu := c\<rparr>"

text \<open>
  \<open>struct periodic_time\<close>. The flags are used as truth values only. \<open>vcpu\<close> is a
  pointer, \<open>None\<close> for \<open>NULL\<close>; \<open>cb\<close> is a function pointer, \<open>None\<close> for
  \<open>NULL\<close>; \<open>priv\<close> is an opaque pointer. \<open>pending_intr_nr\<close> is a 32-bit counter.
\<close>

record periodic_time =
  on_list :: bool
  one_shot :: bool
  do_not_freeze :: bool
  irq_issued :: bool
  source :: ptsrc
  irq :: u8
  vcpu :: "vcpu_ref option"
  pending_intr_nr :: u32
  period :: u64
  period_cycles :: u64
  scheduled :: s_time_t
  last_plt_gtime :: u64
  timer :: timer
  cb :: "nat option"
  priv :: nat

section \<open>The missed-tick processor\<close>

text \<open>
  C's \<open>/\<close> on \<open>s_time_t\<close>: the quotient is truncated towards zero. Division by zero
  traps; the caller below checks for it.
\<close>

definition s64_div :: "s_time_t \<Rightarrow> s_time_t \<Rightarrow> s_time_t" where
  "s64_div a b = word_of_int (sint a sdiv sint b)"

text \<open>
  \<open>pt_process_missed_ticks(pt)\<close>, with the reading of \<open>NOW()\<close> and the domain's timer
  mode as parameters. \<open>None\<close> is a crash of the hypervisor: the divide error when
  \<open>period\<close> is 0, or the dereference of a \<open>NULL\<close> \<open>pt->vcpu\<close> in \<open>mode_is\<close>.
\<close>

definition pt_process_missed_ticks ::
    "timer_mode \<Rightarrow> s_time_t \<Rightarrow> periodic_time \<Rightarrow> periodic_time option" where
  "pt_process_missed_ticks m now pt =
     (if one_shot pt then Some pt
      else
        let missed_ticks = now - scheduled pt in
        if sint missed_ticks \<le> 0 then Some pt
        else if period pt = 0 then None
        else
          let missed_ticks = s64_div missed_ticks (period pt) + 1 in
          if vcpu pt = None then None
          else
            let pt1 =
              (if m = HVMPTM_no_missed_ticks_pending
               then pt\<lparr>do_not_freeze := (pending_intr_nr pt = 0)\<rparr>
               else pt\<lparr>pending_intr_nr := pending_intr_nr pt + ucast missed_ticks\<rparr>)
            in Some (pt1\<lparr>scheduled := scheduled pt1 + missed_ticks * period pt1\<rparr>))"

section \<open>Domain, vCPU and environment\<close>

text \<open>
  What vpt.c reads of the emulated interrupt controllers. \<open>vpic[i].imr\<close> and
  \<open>vpic[i].irq_base\<close> of the two 8259s, and the \<open>vector\<close> and \<open>mask\<close> fields of an
  I/O APIC redirection entry.
\<close>

record hvm_hw_vpic =
  imr :: u8
  irq_base :: u8

record redir_entry =
  fields_vector :: u8
  fields_mask :: bool

text \<open>
  \<open>struct vcpu\<close>, as far as vpt.c uses it: the timer list \<open>arch.hvm_vcpu.tm_list\<close>
  (the addresses of the linked records, first element first), the frozen guest time
  \<open>arch.hvm_vcpu.guest_time\<close>, the physical CPU \<open>processor\<close>, the bit
  \<open>_VPF_blocked\<close> of \<open>pause_flags\<close>, and of its local APIC the values of
  \<open>vlapic_enabled(vlapic)\<close>, of
  \<open>vlapic_get_reg(vlapic, APIC_LVTT) & APIC_LVT_MASKED\<close> (as a truth value) and of
  \<open>vlapic_accept_pic_intr(v)\<close>.

  Modelled from the spec: \<open>hvm_get_guest_time\<close> and \<open>hvm_set_guest_time\<close> are external
  to vpt.c. Guest time is the host's cycle counter plus a per-vCPU offset
  (\<open>cache_tsc_offset\<close>); setting guest time sets the offset so that the guest sees
  exactly the given value.
\<close>

record vcpu_state =
  tm_list :: "pt_ref list"
  guest_time :: u64
  cache_tsc_offset :: u64
  processor :: nat
  vpf_blocked :: bool
  vlapic_enabled :: bool
  lvtt_masked :: bool
  vlapic_accept_pic_intr :: bool

text \<open>
  The calls vpt.c makes into its collaborators, and its log line, in the order made.
\<close>

datatype event =
    Vcpu_kick vcpu_ref
  | Vlapic_set_irq vcpu_ref u8
  | Hvm_isa_irq_deassert u8
  | Hvm_isa_irq_assert u8
  | Time_cb nat vcpu_ref nat
  | Warn_small_period u64

text \<open>
  One HVM domain: its timer mode, its interrupt controllers, the macro
  \<open>hvm_isa_irq_to_gsi\<close> (a parameter here), its vCPUs, the memory holding the
  \<open>periodic_time\<close> structures of its device models, and the trace of external calls.
\<close>

record hvm_state =
  timer_mode_param :: timer_mode
  vpic :: "nat \<Rightarrow> hvm_hw_vpic"
  redirtbl :: "nat \<Rightarrow> redir_entry"
  hvm_isa_irq_to_gsi :: "u32 \<Rightarrow> u32"
  vcpus :: "vcpu_ref \<Rightarrow> vcpu_state"
  pts :: "pt_ref \<Rightarrow> periodic_time"
  trace :: "event list"

text \<open>
  The readings an operation takes from outside: \<open>NOW()\<close>, the host cycle counter and the
  global \<open>cpu_khz\<close>. An operation runs under \<open>tm_lock\<close>; the model takes each reading as
  the same throughout one operation.
\<close>

record env =
  NOW :: s_time_t
  host_tsc :: u64
  cpu_khz :: u64

definition hvm_get_guest_time :: "env \<Rightarrow> hvm_state \<Rightarrow> vcpu_ref \<Rightarrow> u64" where
  "hvm_get_guest_time e s v = host_tsc e + cache_tsc_offset (vcpus s v)"

definition hvm_set_guest_time :: "env \<Rightarrow> hvm_state \<Rightarrow> vcpu_ref \<Rightarrow> u64 \<Rightarrow> hvm_state" where
  "hvm_set_guest_time e s v gt =
     s\<lparr>vcpus := (vcpus s)(v := (vcpus s v)\<lparr>cache_tsc_offset := gt - host_tsc e\<rparr>)\<rparr>"

text \<open>Writing through a \<open>struct periodic_time *\<close>.\<close>

definition pt_upd :: "pt_ref \<Rightarrow> (periodic_time \<Rightarrow> periodic_time) \<Rightarrow> hvm_state \<Rightarrow> hvm_state" where
  "pt_upd p f s = s\<lparr>pts := (pts s)(p := f (pts s p))\<rparr>"

text \<open>
  \<open>list_del(&pt->list)\<close> unlinks the node from the list it is on; \<open>list_add\<close> links it
  in at the head.
\<close>

definition list_del :: "pt_ref \<Rightarrow> hvm_state \<Rightarrow> hvm_state" where
  "list_del p s = s\<lparr>vcpus := (\<lambda>u. (vcpus s u)\<lparr>tm_list := removeAll p (tm_list (vcpus s u))\<rparr>)\<rparr>"

definition list_add :: "pt_ref \<Rightarrow> vcpu_ref \<Rightarrow> hvm_state \<Rightarrow> hvm_state" where
  "list_add p v s = s\<lparr>vcpus := (vcpus s)(v := (vcpus s v)\<lparr>tm_list := p # tm_list (vcpus s v)\<rparr>)\<rparr>"

section \<open>Vector and mask of a timer's line\<close>

text \<open>
  \<open>pt_irq_vector\<close>. \<open>None\<close>: the \<open>NULL\<close> dereference of \<open>pt->vcpu\<close> on the ISA path,
  or the failed \<open>ASSERT(src == hvm_intsrc_lapic)\<close>.
\<close>

definition pt_irq_vector :: "hvm_state \<Rightarrow> periodic_time \<Rightarrow> hvm_intsrc \<Rightarrow> int option" where
  "pt_irq_vector s pt src =
     (if source pt = PTSRC_lapic then Some (uint (irq pt))
      else
        let isa_irq = (ucast (irq pt) :: u32);
            gsi = hvm_isa_irq_to_gsi s isa_irq
        in
          if vcpu pt = None then None
          else if src = hvm_intsrc_pic then
            Some (uint (irq_base (vpic s (unat (drop_bit 3 isa_irq)))) + uint (isa_irq AND 7))
          else if src \<noteq> hvm_intsrc_lapic then None
          else Some (uint (fields_vector (redirtbl s (unat gsi)))))"

text \<open>\<open>pt_irq_masked\<close>. \<open>None\<close>: the \<open>NULL\<close> dereference of \<open>pt->vcpu\<close>.\<close>

definition pt_irq_masked :: "hvm_state \<Rightarrow> periodic_time \<Rightarrow> bool option" where
  "pt_irq_masked s pt =
     (case vcpu pt of
        None \<Rightarrow> None
      | Some v \<Rightarrow>
          if source pt = PTSRC_lapic then
            Some (\<not> vlapic_enabled (vcpus s v) \<or> lvtt_masked (vcpus s v))
          else
            let isa_irq = (ucast (irq pt) :: u32);
                gsi = hvm_isa_irq_to_gsi s isa_irq;
                pic_imr = imr (vpic s (unat (drop_bit 3 isa_irq)))
            in
              Some (((ucast pic_imr AND push_bit (unat (isa_irq AND 7)) (1 :: u32)) \<noteq> 0
                       \<or> \<not> vlapic_accept_pic_intr (vcpus s v))
                    \<and> fields_mask (redirtbl s (unat gsi))))"

section \<open>Freeze and thaw, save and restore\<close>

definition pt_freeze_time :: "env \<Rightarrow> vcpu_ref \<Rightarrow> hvm_state \<Rightarrow> hvm_state" where
  "pt_freeze_time e v s =
     (if timer_mode_param s \<noteq> HVMPTM_delay_for_missed_ticks then s
      else s\<lparr>vcpus := (vcpus s)(v := (vcpus s v)\<lparr>guest_time := hvm_get_guest_time e s v\<rparr>)\<rparr>)"

definition pt_thaw_time :: "env \<Rightarrow> vcpu_ref \<Rightarrow> hvm_state \<Rightarrow> hvm_state" where
  "pt_thaw_time e v s =
     (if timer_mode_param s \<noteq> HVMPTM_delay_for_missed_ticks then s
      else if guest_time (vcpus s v) = 0 then s
      else
        let s1 = hvm_set_guest_time e s v (guest_time (vcpus s v))
        in s1\<lparr>vcpus := (vcpus s1)(v := (vcpus s1 v)\<lparr>guest_time := 0\<rparr>)\<rparr>)"

text \<open>The loop of \<open>pt_save_timer\<close> over the list.\<close>

primrec pt_save_timer_loop :: "pt_ref list \<Rightarrow> hvm_state \<Rightarrow> hvm_state" where
  "pt_save_timer_loop [] s = s"
| "pt_save_timer_loop (p # ps) s =
     pt_save_timer_loop ps
       (if \<not> do_not_freeze (pts s p)
        then pt_upd p (\<lambda>pt. pt\<lparr>timer := stop_timer (timer pt)\<rparr>) s
        else s)"

definition pt_save_timer :: "env \<Rightarrow> vcpu_ref \<Rightarrow> hvm_state \<Rightarrow> hvm_state" where
  "pt_save_timer e v s =
     (if vpf_blocked (vcpus s v) then s
      else pt_freeze_time e v (pt_save_timer_loop (tm_list (vcpus s v)) s))"

text \<open>The loop of \<open>pt_restore_timer\<close> over the list.\<close>

primrec pt_restore_timer_loop :: "env \<Rightarrow> pt_ref list \<Rightarrow> hvm_state \<Rightarrow> hvm_state option" where
  "pt_restore_timer_loop e [] s = Some s"
| "pt_restore_timer_loop e (p # ps) s =
     (case pt_process_missed_ticks (timer_mode_param s) (NOW e) (pts s p) of
        None \<Rightarrow> None
      | Some pt \<Rightarrow>
          pt_restore_timer_loop e ps
            (pt_upd p (\<lambda>_. pt\<lparr>timer := set_timer (timer pt) (scheduled pt)\<rparr>) s))"

definition pt_restore_timer :: "env \<Rightarrow> vcpu_ref \<Rightarrow> hvm_state \<Rightarrow> hvm_state option" where
  "pt_restore_timer e v s =
     (case pt_restore_timer_loop e (tm_list (vcpus s v)) s of
        None \<Rightarrow> None
      | Some s1 \<Rightarrow> Some (pt_thaw_time e v s1))"

section \<open>The expiry callback\<close>

text \<open>
  \<open>pt_timer_fn\<close>. \<open>pt_lock\<close> reads \<open>pt->vcpu\<close> and takes that vCPU's lock; run alone,
  its loop ends in the first round. \<open>None\<close>: \<open>pt->vcpu\<close> is \<open>NULL\<close>, or the missed-tick
  processor crashed.
\<close>

definition pt_timer_fn :: "env \<Rightarrow> pt_ref \<Rightarrow> hvm_state \<Rightarrow> hvm_state option" where
  "pt_timer_fn e p s =
     (case vcpu (pts s p) of
        None \<Rightarrow> None
      | Some v \<Rightarrow>
          let pt = (pts s p)\<lparr>pending_intr_nr := pending_intr_nr (pts s p) + 1\<rparr> in
          (case
             (if \<not> one_shot pt then
                (case pt_process_missed_ticks (timer_mode_param s) (NOW e)
                        (pt\<lparr>scheduled := scheduled pt + period pt\<rparr>) of
                   None \<Rightarrow> None
                 | Some pt1 \<Rightarrow> Some (pt1\<lparr>timer := set_timer (timer pt1) (scheduled pt1)\<rparr>))
              else Some pt)
           of
             None \<Rightarrow> None
           | Some pt2 \<Rightarrow> Some ((pt_upd p (\<lambda>_. pt2) s)\<lparr>trace := trace s @ [Vcpu_kick v]\<rparr>)))"


section \<open>The injection selector\<close>

text \<open>
  The scan of \<open>pt_update_irq\<close>: the pair is \<open>(max_lag, earliest_pt)\<close>, which starts as
  \<open>(-1ULL, NULL)\<close>.
\<close>

primrec pt_update_irq_scan ::
    "hvm_state \<Rightarrow> pt_ref list \<Rightarrow> u64 \<times> pt_ref option \<Rightarrow> (u64 \<times> pt_ref option) option" where
  "pt_update_irq_scan s [] acc = Some acc"
| "pt_update_irq_scan s (p # ps) acc =
     (case pt_irq_masked s (pts s p) of
        None \<Rightarrow> None
      | Some masked \<Rightarrow>
          if \<not> masked \<and> pending_intr_nr (pts s p) \<noteq> 0
             \<and> last_plt_gtime (pts s p) + period_cycles (pts s p) < fst acc
          then pt_update_irq_scan s ps
                 (last_plt_gtime (pts s p) + period_cycles (pts s p), Some p)
          else pt_update_irq_scan s ps acc)"

definition pt_update_irq :: "vcpu_ref \<Rightarrow> hvm_state \<Rightarrow> hvm_state option" where
  "pt_update_irq v s =
     (case pt_update_irq_scan s (tm_list (vcpus s v)) (- 1, None) of
        None \<Rightarrow> None
      | Some (max_lag, None) \<Rightarrow> Some s
      | Some (max_lag, Some earliest_pt) \<Rightarrow>
          let s1 = pt_upd earliest_pt (\<lambda>pt. pt\<lparr>irq_issued := True\<rparr>) s;
              irq = irq (pts s1 earliest_pt);
              is_lapic = (source (pts s1 earliest_pt) = PTSRC_lapic)
          in Some (s1\<lparr>trace := trace s1 @
                     (if is_lapic then [Vlapic_set_irq v irq]
                      else [Hvm_isa_irq_deassert irq, Hvm_isa_irq_assert irq])\<rparr>))"

section \<open>The acknowledgement\<close>

text \<open>
  \<open>is_pt_irq\<close>: the first record of the list that has a tick pending, has been issued and
  resolves to the acknowledged vector. The outer \<open>None\<close> is a crash in \<open>pt_irq_vector\<close>,
  the inner one the \<open>NULL\<close> result.
\<close>

primrec is_pt_irq_loop :: "hvm_state \<Rightarrow> pt_ref list \<Rightarrow> hvm_intack \<Rightarrow> pt_ref option option" where
  "is_pt_irq_loop s [] intack = Some None"
| "is_pt_irq_loop s (p # ps) intack =
     (if pending_intr_nr (pts s p) \<noteq> 0 \<and> irq_issued (pts s p) then
        (case pt_irq_vector s (pts s p) (intack_source intack) of
           None \<Rightarrow> None
         | Some vec \<Rightarrow>
             if uint (intack_vector intack) = vec then Some (Some p)
             else is_pt_irq_loop s ps intack)
      else is_pt_irq_loop s ps intack)"

definition is_pt_irq :: "hvm_state \<Rightarrow> vcpu_ref \<Rightarrow> hvm_intack \<Rightarrow> pt_ref option option" where
  "is_pt_irq s v intack = is_pt_irq_loop s (tm_list (vcpus s v)) intack"

definition pt_intr_post :: "env \<Rightarrow> vcpu_ref \<Rightarrow> hvm_intack \<Rightarrow> hvm_state \<Rightarrow> hvm_state option" where
  "pt_intr_post e v intack s =
     (case is_pt_irq s v intack of
        None \<Rightarrow> None
      | Some None \<Rightarrow> Some s
      | Some (Some p) \<Rightarrow>
          let s1 = pt_upd p (\<lambda>pt. pt\<lparr>do_not_freeze := False, irq_issued := False\<rparr>) s;
              s2 =
                (if one_shot (pts s1 p) then
                   pt_upd p (\<lambda>pt. pt\<lparr>on_list := False\<rparr>)
                     (if on_list (pts s1 p) then list_del p s1 else s1)
                 else if timer_mode_param s1 = HVMPTM_one_missed_tick_pending then
                   pt_upd p (\<lambda>pt. pt\<lparr>last_plt_gtime := hvm_get_guest_time e s1 v,
                                       pending_intr_nr := 0\<rparr>) s1
                 else
                   pt_upd p (\<lambda>pt. pt\<lparr>last_plt_gtime := last_plt_gtime pt + period_cycles pt,
                                       pending_intr_nr := pending_intr_nr pt - 1\<rparr>) s1);
              s3 =
                (if timer_mode_param s2 = HVMPTM_delay_for_missed_ticks
                    \<and> hvm_get_guest_time e s2 v < last_plt_gtime (pts s2 p)
                 then hvm_set_guest_time e s2 v (last_plt_gtime (pts s2 p))
                 else s2)
          in
            Some (case cb (pts s3 p) of
                    None \<Rightarrow> s3
                  | Some f \<Rightarrow> s3\<lparr>trace := trace s3 @ [Time_cb f v (priv (pts s3 p))]\<rparr>))"

section \<open>Reset and migrate\<close>

text \<open>
  The loop of \<open>pt_reset\<close>. \<open>None\<close>: \<open>pt->vcpu\<close> is \<open>NULL\<close> where its guest time is read.
\<close>

primrec pt_reset_loop :: "env \<Rightarrow> pt_ref list \<Rightarrow> hvm_state \<Rightarrow> hvm_state option" where
  "pt_reset_loop e [] s = Some s"
| "pt_reset_loop e (p # ps) s =
     (case vcpu (pts s p) of
        None \<Rightarrow> None
      | Some u \<Rightarrow>
          pt_reset_loop e ps
            (pt_upd p (\<lambda>pt.
               let pt1 = pt\<lparr>pending_intr_nr := 0,
                             last_plt_gtime := hvm_get_guest_time e s u,
                             scheduled := NOW e + period pt\<rparr>
               in pt1\<lparr>timer := set_timer (timer pt1) (scheduled pt1)\<rparr>) s))"

definition pt_reset :: "env \<Rightarrow> vcpu_ref \<Rightarrow> hvm_state \<Rightarrow> hvm_state option" where
  "pt_reset e v s = pt_reset_loop e (tm_list (vcpus s v)) s"

primrec pt_migrate_loop :: "vcpu_ref \<Rightarrow> pt_ref list \<Rightarrow> hvm_state \<Rightarrow> hvm_state" where
  "pt_migrate_loop v [] s = s"
| "pt_migrate_loop v (p # ps) s =
     pt_migrate_loop v ps
       (pt_upd p (\<lambda>pt. pt\<lparr>timer := migrate_timer (timer pt) (processor (vcpus s v))\<rparr>) s)"

definition pt_migrate :: "vcpu_ref \<Rightarrow> hvm_state \<Rightarrow> hvm_state" where
  "pt_migrate v s = pt_migrate_loop v (tm_list (vcpus s v)) s"

section \<open>Create and destroy\<close>

definition destroy_periodic_time :: "pt_ref \<Rightarrow> hvm_state \<Rightarrow> hvm_state" where
  "destroy_periodic_time p s =
     (if vcpu (pts s p) = None then s
      else
        let s1 = (if on_list (pts s p) then list_del p s else s);
            s2 = pt_upd p (\<lambda>pt. pt\<lparr>on_list := False\<rparr>) s1
        in pt_upd p (\<lambda>pt. pt\<lparr>timer := kill_timer (timer pt)\<rparr>) s2)"

text \<open>
  \<open>create_periodic_time(v, pt, period, irq, one_shot, cb, data)\<close>; \<open>one_shot\<close> is a
  \<open>char\<close>. \<open>None\<close>: the failed \<open>ASSERT(pt->source != 0)\<close>.
\<close>

definition create_periodic_time ::
    "env \<Rightarrow> vcpu_ref \<Rightarrow> pt_ref \<Rightarrow> u64 \<Rightarrow> u8 \<Rightarrow> u8 \<Rightarrow> nat option \<Rightarrow> nat \<Rightarrow> hvm_state
       \<Rightarrow> hvm_state option" where
  "create_periodic_time e v p period0 irq0 one_shot0 cb0 data s =
     (if source (pts s p) = PTSRC_unset then None
      else
        let s1 = destroy_periodic_time p s;
            s2 = pt_upd p (\<lambda>pt. pt\<lparr>pending_intr_nr := 0, do_not_freeze := False,
                                     irq_issued := False\<rparr>) s1;
            small = (period0 < 900000 \<and> one_shot0 = 0);
            s3 = (if small then s2\<lparr>trace := trace s2 @ [Warn_small_period period0]\<rparr> else s2);
            period1 = (if small then 900000 else period0);
            s4 = pt_upd p (\<lambda>pt. pt\<lparr>period := period1,
                                     vcpu := Some v,
                                     last_plt_gtime := hvm_get_guest_time e s3 v,
                                     irq := irq0,
                                     period_cycles := period1 * cpu_khz e div 1000000,
                                     one_shot := (one_shot0 \<noteq> 0),
                                     scheduled := NOW e + period1\<rparr>) s3;
            s5 = (if source (pts s4 p) = PTSRC_lapic
                  then pt_upd p (\<lambda>pt. pt\<lparr>scheduled := scheduled pt + drop_bit 1 period1\<rparr>) s4
                  else s4);
            s6 = pt_upd p (\<lambda>pt. pt\<lparr>cb := cb0, priv := data, on_list := True\<rparr>) s5;
            s7 = list_add p v s6;
            s8 = pt_upd p (\<lambda>pt. pt\<lparr>timer := init_timer (processor (vcpus s7 v))\<rparr>) s7
        in Some (pt_upd p (\<lambda>pt. pt\<lparr>timer := set_timer (timer pt) (scheduled pt)\<rparr>) s8))"


section \<open>Sequences of operations\<close>

text \<open>
  Modelled from the spec: the host timer facility runs the callback of an armed timer once
  its deadline has passed (\<open>now \<ge> scheduled\<close>) and disarms the timer before the call;
  otherwise nothing happens.
\<close>

definition timer_expiry :: "env \<Rightarrow> pt_ref \<Rightarrow> hvm_state \<Rightarrow> hvm_state option" where
  "timer_expiry e p s =
     (if active (timer (pts s p)) \<and> sint (expires (timer (pts s p))) \<le> sint (NOW e)
      then pt_timer_fn e p (pt_upd p (\<lambda>pt. pt\<lparr>timer := stop_timer (timer pt)\<rparr>) s)
      else Some s)"

text \<open>The public operations and the expiry of a record's host timer.\<close>

datatype op =
    Create_periodic_time vcpu_ref pt_ref u64 u8 u8 "nat option" nat
  | Destroy_periodic_time pt_ref
  | Pt_save_timer vcpu_ref
  | Pt_restore_timer vcpu_ref
  | Pt_update_irq vcpu_ref
  | Pt_intr_post vcpu_ref hvm_intack
  | Pt_reset vcpu_ref
  | Pt_migrate vcpu_ref
  | Timer_expiry pt_ref

fun step :: "env \<Rightarrow> op \<Rightarrow> hvm_state \<Rightarrow> hvm_state option" where
  "step e (Create_periodic_time v p period0 irq0 one_shot0 cb0 data) s =
     create_periodic_time e v p period0 irq0 one_shot0 cb0 data s"
| "step e (Destroy_periodic_time p) s = Some (destroy_periodic_time p s)"
| "step e (Pt_save_timer v) s = Some (pt_save_timer e v s)"
| "step e (Pt_restore_timer v) s = pt_restore_timer e v s"
| "step e (Pt_update_irq v) s = pt_update_irq v s"
| "step e (Pt_intr_post v intack) s = pt_intr_post e v intack s"
| "step e (Pt_reset v) s = pt_reset e v s"
| "step e (Pt_migrate v) s = Some (pt_migrate v s)"
| "step e (Timer_expiry p) s = timer_expiry e p s"

text \<open>A sequence of operations, each with the readings it takes; a crash ends it.\<close>

primrec run :: "(env \<times> op) list \<Rightarrow> hvm_state \<Rightarrow> hvm_state option" where
  "run [] s = Some s"
| "run (x # xs) s =
     (case step (fst x) (snd x) s of
        None \<Rightarrow> None
      | Some s1 \<Rightarrow> run xs s1)"


section \<open>Notions of the specification\<close>

text \<open>
  A record is eligible when it has a tick pending and \<open>pt_irq_masked\<close> says its line is
  not masked. Its key is \<open>last_plt_gtime + period_cycles\<close>, as \<open>pt_update_irq\<close>
  computes it (in 64 bits).
\<close>

definition eligible :: "pt_ref \<Rightarrow> hvm_state \<Rightarrow> bool" where
  "eligible p s \<longleftrightarrow> pending_intr_nr (pts s p) \<noteq> 0 \<and> pt_irq_masked s (pts s p) = Some False"

definition lag_key :: "pt_ref \<Rightarrow> hvm_state \<Rightarrow> u64" where
  "lag_key p s = last_plt_gtime (pts s p) + period_cycles (pts s p)"

text \<open>The calls that assert an interrupt line.\<close>

fun asserts_line :: "event \<Rightarrow> bool" where
  "asserts_line (Vlapic_set_irq v i) = True"
| "asserts_line (Hvm_isa_irq_assert i) = True"
| "asserts_line _ = False"

text \<open>
  \<open>all_steps G xs s\<close>: every step of the sequence \<open>xs\<close>, started in \<open>s\<close>, is taken in
  a state in which \<open>G\<close> allows it.
\<close>

primrec all_steps ::
    "(hvm_state \<Rightarrow> env \<times> op \<Rightarrow> bool) \<Rightarrow> (env \<times> op) list \<Rightarrow> hvm_state \<Rightarrow> bool" where
  "all_steps G [] s = True"
| "all_steps G (x # xs) s =
     (G s x \<and> (case step (fst x) (snd x) s of None \<Rightarrow> True | Some s1 \<Rightarrow> all_steps G xs s1))"

text \<open>
  The ticks the missed-tick processor would add to a record at time \<open>now\<close> fit its 32-bit
  counter: the processor leaves the record alone (one-shot, or \<open>now - scheduled \<le> 0\<close>), or
  the period is positive as an \<open>s_time_t\<close> and \<open>pending_intr_nr\<close> plus
  \<open>(now - scheduled) / period + 1\<close> stays below \<open>2^32\<close>.
\<close>

definition ticks_fit :: "s_time_t \<Rightarrow> periodic_time \<Rightarrow> bool" where
  "ticks_fit now pt \<longleftrightarrow>
     one_shot pt \<or> sint (now - scheduled pt) \<le> 0
     \<or> (0 < sint (period pt)
         \<and> uint (pending_intr_nr pt) + (sint (now - scheduled pt) div sint (period pt) + 1)
               < 2 ^ 32)"

text \<open>
  The same for an expiry, which first adds one tick and advances \<open>scheduled\<close> by one
  period, then runs the processor.
\<close>

definition expiry_fits :: "s_time_t \<Rightarrow> periodic_time \<Rightarrow> bool" where
  "expiry_fits now pt \<longleftrightarrow>
     uint (pending_intr_nr pt) + 1 < 2 ^ 32
     \<and> ticks_fit now (pt\<lparr>pending_intr_nr := pending_intr_nr pt + 1,
                          scheduled := scheduled pt + period pt\<rparr>)"

text \<open>
  What a step needs, in the state it starts from, to keep \<open>irq_issued \<Longrightarrow> pending_intr_nr \<noteq> 0\<close>:
  \<open>pt_reset\<close> runs on a list with no issued record; an expiry that fires on an issued
  record, and a restore over issued records, find counters that the added ticks fit.
\<close>

fun counters_fit :: "hvm_state \<Rightarrow> env \<times> op \<Rightarrow> bool" where
  "counters_fit s (e, Pt_reset v) =
     list_all (\<lambda>p. \<not> irq_issued (pts s p)) (tm_list (vcpus s v))"
| "counters_fit s (e, Timer_expiry p) =
     (\<not> irq_issued (pts s p)
      \<or> \<not> (active (timer (pts s p)) \<and> sint (expires (timer (pts s p))) \<le> sint (NOW e))
      \<or> expiry_fits (NOW e) (pts s p))"
| "counters_fit s (e, Pt_restore_timer v) =
     list_all (\<lambda>p. \<not> irq_issued (pts s p) \<or> ticks_fit (NOW e) (pts s p))
       (tm_list (vcpus s v))"
| "counters_fit s (e, _) = True"

text \<open>A record's host timer expires only while the record has no tick pending.\<close>

fun expiry_after_ack :: "hvm_state \<Rightarrow> env \<times> op \<Rightarrow> bool" where
  "expiry_after_ack s (e, Timer_expiry p) = (pending_intr_nr (pts s p) = 0)"
| "expiry_after_ack s (e, _) = True"

section \<open>Concrete records and states\<close>

text \<open>
  A linked ISA timer of period 1 ms whose next expiry is due at 1 ms, with no tick pending.
\<close>

definition pt_periodic :: periodic_time where
  "pt_periodic =
     \<lparr>on_list = True, one_shot = False, do_not_freeze = False, irq_issued = False,
      source = PTSRC_isa, irq = 0, vcpu = Some 0, pending_intr_nr = 0,
      period = 1000000, period_cycles = 3000000, scheduled = 1000000, last_plt_gtime = 0,
      timer = \<lparr>expires = 1000000, cpu = 0, active = True, killed = False\<rparr>,
      cb = None, priv = 0\<rparr>"

text \<open>
  A record as a device model hands it to \<open>create_periodic_time\<close> for the first time:
  zeroed, with \<open>source\<close> filled in.
\<close>

definition pt_blank :: periodic_time where
  "pt_blank =
     \<lparr>on_list = False, one_shot = False, do_not_freeze = False, irq_issued = False,
      source = PTSRC_isa, irq = 0, vcpu = None, pending_intr_nr = 0,
      period = 0, period_cycles = 0, scheduled = 0, last_plt_gtime = 0,
      timer = \<lparr>expires = 0, cpu = 0, active = False, killed = False\<rparr>,
      cb = None, priv = 0\<rparr>"

definition vcpu_idle :: vcpu_state where
  "vcpu_idle =
     \<lparr>tm_list = [], guest_time = 0, cache_tsc_offset = 0, processor = 0,
      vpf_blocked = False, vlapic_enabled = True, lvtt_masked = False,
      vlapic_accept_pic_intr = True\<rparr>"

text \<open>A domain with no timer registered, nothing masked, in the given mode.\<close>

definition hvm_boot :: "timer_mode \<Rightarrow> hvm_state" where
  "hvm_boot m =
     \<lparr>timer_mode_param = m,
      vpic = (\<lambda>_. \<lparr>imr = 0, irq_base = 8\<rparr>),
      redirtbl = (\<lambda>_. \<lparr>fields_vector = 48, fields_mask = False\<rparr>),
      hvm_isa_irq_to_gsi = (\<lambda>i. if i = 0 then 2 else i),
      vcpus = (\<lambda>_. vcpu_idle),
      pts = (\<lambda>_. pt_blank),
      trace = []\<rparr>"

text \<open>The readings at host time \<open>t\<close> (in ns) on a 3 GHz host.\<close>

definition env_at :: "s_time_t \<Rightarrow> env" where
  "env_at t = \<lparr>NOW = t, host_tsc = 3 * t, cpu_khz = 3000000\<rparr>"

definition pt_of :: "pt_ref \<Rightarrow> hvm_state \<Rightarrow> periodic_time" where
  "pt_of p s = pts s p"

text \<open>
  A domain whose vCPU 0 has one timer, the 1 ms ISA timer with one tick pending, for which
  the line has been asserted.
\<close>

definition hvm_issued :: hvm_state where
  "hvm_issued =
     (hvm_boot HVMPTM_no_delay_for_missed_ticks)
       \<lparr>vcpus := (\<lambda>_. vcpu_idle)(0 := vcpu_idle\<lparr>tm_list := [0]\<rparr>),
        pts := (\<lambda>_. pt_blank)(0 := pt_periodic\<lparr>pending_intr_nr := 1, irq_issued := True\<rparr>)\<rparr>"

text \<open>The same with a one-shot LAPIC timer of vector 48.\<close>

definition hvm_one_shot_issued :: hvm_state where
  "hvm_one_shot_issued =
     (hvm_boot HVMPTM_no_delay_for_missed_ticks)
       \<lparr>vcpus := (\<lambda>_. vcpu_idle)(0 := vcpu_idle\<lparr>tm_list := [0]\<rparr>),
        pts := (\<lambda>_. pt_blank)
                 (0 := pt_periodic\<lparr>one_shot := True, source := PTSRC_lapic, irq := 48,
                                      pending_intr_nr := 1, irq_issued := True\<rparr>)\<rparr>"

text \<open>
  The 1 ms timer with one tick pending and a key \<open>last_plt_gtime + period_cycles\<close> of
  \<open>2^64 - 1\<close>, and a domain whose vCPU 0 has it as its only timer.
\<close>

definition pt_max_key :: periodic_time where
  "pt_max_key = pt_periodic\<lparr>pending_intr_nr := 1, last_plt_gtime := - 3000001\<rparr>"

definition hvm_max_key :: hvm_state where
  "hvm_max_key =
     (hvm_boot HVMPTM_no_delay_for_missed_ticks)
       \<lparr>vcpus := (\<lambda>_. vcpu_idle)(0 := vcpu_idle\<lparr>tm_list := [0]\<rparr>),
        pts := (\<lambda>_. pt_blank)(0 := pt_max_key)\<rparr>"

text \<open>
  The same timer followed on the list by a second one, of IRQ 8, whose key is smaller.
\<close>

definition hvm_two_timers :: hvm_state where
  "hvm_two_timers =
     (hvm_boot HVMPTM_no_delay_for_missed_ticks)
       \<lparr>vcpus := (\<lambda>_. vcpu_idle)(0 := vcpu_idle\<lparr>tm_list := [0, 1]\<rparr>),
        pts := (\<lambda>_. pt_blank)
                 (0 := pt_max_key,
                  1 := pt_periodic\<lparr>irq := 8, pending_intr_nr := 1, last_plt_gtime := 5\<rparr>)\<rparr>"

text \<open>
  A domain with no timer yet, whose vCPU 0 has had its guest time set to
  \<open>2^64 - 3000001\<close> cycles at host cycle 0.
\<close>

definition hvm_tsc_written :: hvm_state where
  "hvm_tsc_written =
     (hvm_boot HVMPTM_no_delay_for_missed_ticks)
       \<lparr>vcpus := (\<lambda>_. vcpu_idle)(0 := vcpu_idle\<lparr>cache_tsc_offset := - 3000001\<rparr>)\<rparr>"

section \<open>Selectors of the state after elementary updates\<close>

lemma pt_upd_sel [simp]:
  "pts (pt_upd p f s) = (pts s)(p := f (pts s p))"
  "vcpus (pt_upd p f s) = vcpus s"
  "timer_mode_param (pt_upd p f s) = timer_mode_param s"
  "trace (pt_upd p f s) = trace s"
  "vpic (pt_upd p f s) = vpic s"
  "redirtbl (pt_upd p f s) = redirtbl s"
  "hvm_isa_irq_to_gsi (pt_upd p f s) = hvm_isa_irq_to_gsi s"
  by (simp_all add: pt_upd_def)

lemma list_del_sel [simp]:
  "pts (list_del p s) = pts s"
  "timer_mode_param (list_del p s) = timer_mode_param s"
  "trace (list_del p s) = trace s"
  "tm_list (vcpus (list_del p s) u) = removeAll p (tm_list (vcpus s u))"
  by (simp_all add: list_del_def)

lemma list_add_sel [simp]:
  "pts (list_add p v s) = pts s"
  "timer_mode_param (list_add p v s) = timer_mode_param s"
  "trace (list_add p v s) = trace s"
  "tm_list (vcpus (list_add p v s) u) = (if u = v then p # tm_list (vcpus s v) else tm_list (vcpus s u))"
  by (simp_all add: list_add_def)

lemma list_add_vcpu_sel [simp]:
  "processor (vcpus (list_add p v s) u) = processor (vcpus s u)"
  "cache_tsc_offset (vcpus (list_add p v s) u) = cache_tsc_offset (vcpus s u)"
  by (simp_all add: list_add_def)

lemma hvm_set_guest_time_sel [simp]:
  "pts (hvm_set_guest_time e s v gt) = pts s"
  "timer_mode_param (hvm_set_guest_time e s v gt) = timer_mode_param s"
  "trace (hvm_set_guest_time e s v gt) = trace s"
  "tm_list (vcpus (hvm_set_guest_time e s v gt) u) = tm_list (vcpus s u)"
  by (simp_all add: hvm_set_guest_time_def)

lemma pt_freeze_time_sel [simp]:
  "pts (pt_freeze_time e v s) = pts s"
  "timer_mode_param (pt_freeze_time e v s) = timer_mode_param s"
  "trace (pt_freeze_time e v s) = trace s"
  "tm_list (vcpus (pt_freeze_time e v s) u) = tm_list (vcpus s u)"
  by (simp_all add: pt_freeze_time_def)

lemma pt_thaw_time_sel [simp]:
  "pts (pt_thaw_time e v s) = pts s"
  "timer_mode_param (pt_thaw_time e v s) = timer_mode_param s"
  "trace (pt_thaw_time e v s) = trace s"
  "tm_list (vcpus (pt_thaw_time e v s) u) = tm_list (vcpus s u)"
  by (simp_all add: pt_thaw_time_def Let_def)

lemma hvm_get_guest_time_pt_upd [simp]:
  "hvm_get_guest_time e (pt_upd p f s) u = hvm_get_guest_time e s u"
  by (simp add: hvm_get_guest_time_def)

lemma destroy_periodic_time_sel [simp]:
  "timer_mode_param (destroy_periodic_time p s) = timer_mode_param s"
  "trace (destroy_periodic_time p s) = trace s"
  "source (pts (destroy_periodic_time p s) q) = source (pts s q)"
  "processor (vcpus (destroy_periodic_time p s) u) = processor (vcpus s u)"
  "cache_tsc_offset (vcpus (destroy_periodic_time p s) u) = cache_tsc_offset (vcpus s u)"
  by (simp_all add: destroy_periodic_time_def Let_def list_del_def pt_upd_def)

lemmas eval_defs =
  hvm_boot_def env_at_def pt_of_def create_periodic_time_def destroy_periodic_time_def
  pt_blank_def vcpu_idle_def hvm_get_guest_time_def hvm_set_guest_time_def
  init_timer_def set_timer_def stop_timer_def kill_timer_def migrate_timer_def
  timer_expiry_def pt_timer_fn_def pt_process_missed_ticks_def Let_def
  pt_irq_masked_def pt_irq_vector_def pt_update_irq_def is_pt_irq_def pt_intr_post_def
  pt_reset_def pt_migrate_def pt_save_timer_def pt_restore_timer_def
  pt_freeze_time_def pt_thaw_time_def pt_upd_def list_add_def list_del_def
  s64_div_def signed_divide_int_def

section \<open>The missed-tick processor\<close>

lemma sint_sub_no_overflow:
  fixes a b :: "64 word"
  assumes "- (2 ^ 63) \<le> sint a - sint b" and "sint a - sint b < 2 ^ 63"
  shows "sint (a - b) = sint a - sint b"
  using assms by (simp add: sint_word_ariths signed_take_bit_int_eq_self)

lemma ucast_of_int_64_32: "(ucast (word_of_int k :: 64 word) :: 32 word) = word_of_int k"
  by (rule bit_word_eqI) (simp add: bit_simps)

text \<open>
  C5. The missed-tick processor leaves the record alone when it is one-shot or when
  \<open>now \<le> scheduled\<close>. Otherwise, in every mode, it returns with \<open>scheduled\<close> advanced by
  \<open>missed * period\<close>, where \<open>missed = (now - scheduled) / period + 1\<close> with C's truncating
  division. The difference \<open>now - scheduled\<close> is assumed to fit \<open>s_time_t\<close>; the second
  part needs a non-zero period (else the division traps) and an owning vCPU.
\<close>

theorem pt_process_missed_ticks_advances_scheduled:
  assumes "- (2 ^ 63) \<le> sint now - sint (scheduled pt)"
      and "sint now - sint (scheduled pt) < 2 ^ 63"
  shows "(one_shot pt \<or> sint now \<le> sint (scheduled pt) \<longrightarrow>
            pt_process_missed_ticks m now pt = Some pt)
       \<and> (\<not> one_shot pt \<and> sint (scheduled pt) < sint now \<and> period pt \<noteq> 0 \<and> vcpu pt \<noteq> None \<longrightarrow>
            (\<exists>pt'. pt_process_missed_ticks m now pt = Some pt' \<and>
               scheduled pt' = scheduled pt +
                 word_of_int ((sint now - sint (scheduled pt)) sdiv sint (period pt) + 1)
                   * period pt))"
  using sint_sub_no_overflow [OF assms]
  by (auto simp: pt_process_missed_ticks_def Let_def s64_div_def)

text \<open>
  At 0.5 ms the 1 ms timer due at 1 ms is left alone; at 5.7 ms it has missed 5 ticks and
  is next due at 6 ms.
\<close>

theorem pt_process_missed_ticks_advances_scheduled_witness:
  "pt_process_missed_ticks HVMPTM_no_delay_for_missed_ticks 500000 pt_periodic = Some pt_periodic
   \<and> \<not> one_shot pt_periodic \<and> sint (scheduled pt_periodic) < sint (5700000 :: s_time_t)
   \<and> period pt_periodic \<noteq> 0 \<and> vcpu pt_periodic \<noteq> None
   \<and> (\<exists>pt'. pt_process_missed_ticks HVMPTM_no_delay_for_missed_ticks 5700000 pt_periodic = Some pt'
          \<and> scheduled pt' = 6000000)"
  using pt_process_missed_ticks_advances_scheduled
          [of 5700000 pt_periodic HVMPTM_no_delay_for_missed_ticks]
        pt_process_missed_ticks_advances_scheduled
          [of 500000 pt_periodic HVMPTM_no_delay_for_missed_ticks]
  by (simp add: pt_periodic_def signed_divide_int_def)

text \<open>
  C3, as stated, fails: in mode \<open>delay_for_missed_ticks\<close> the processor does change
  \<open>pending_intr_nr\<close>. The 1 ms timer due at 1 ms with nothing pending has 5 ticks pending
  after the processor ran at 5.7 ms.
\<close>

theorem pt_process_missed_ticks_delay_mode_adds_pending:
  "\<not> one_shot pt_periodic \<and> sint (scheduled pt_periodic) < sint (5700000 :: s_time_t)
   \<and> pending_intr_nr pt_periodic = 0
   \<and> map_option pending_intr_nr
        (pt_process_missed_ticks HVMPTM_delay_for_missed_ticks 5700000 pt_periodic) = Some 5"
  by (simp add: pt_process_missed_ticks_def pt_periodic_def s64_div_def signed_divide_int_def)

text \<open>
  C3, amended. In mode \<open>delay_for_missed_ticks\<close>, for a record that is not one-shot and
  has \<open>now > scheduled\<close>, the processor adds \<open>missed\<close> to \<open>pending_intr_nr\<close> (modulo
  \<open>2^32\<close>) and advances \<open>scheduled\<close> by \<open>missed * period\<close>.
\<close>

theorem pt_process_missed_ticks_delay_mode:
  assumes "- (2 ^ 63) \<le> sint now - sint (scheduled pt)"
      and "sint now - sint (scheduled pt) < 2 ^ 63"
      and "\<not> one_shot pt" and "sint (scheduled pt) < sint now"
      and "period pt \<noteq> 0" and "vcpu pt \<noteq> None"
  shows "\<exists>pt'. pt_process_missed_ticks HVMPTM_delay_for_missed_ticks now pt = Some pt'
           \<and> pending_intr_nr pt' = pending_intr_nr pt +
                 word_of_int ((sint now - sint (scheduled pt)) sdiv sint (period pt) + 1)
           \<and> scheduled pt' = scheduled pt +
                 word_of_int ((sint now - sint (scheduled pt)) sdiv sint (period pt) + 1)
                   * period pt"
proof -
  define M where "M = (sint now - sint (scheduled pt)) sdiv sint (period pt) + 1"
  have d: "sint (now - scheduled pt) = sint now - sint (scheduled pt)"
    using assms(1,2) by (rule sint_sub_no_overflow)
  have e64: "s64_div (now - scheduled pt) (period pt) + 1 = word_of_int M"
    by (simp add: s64_div_def d M_def)
  have e32: "ucast (s64_div (now - scheduled pt) (period pt) + 1) = (word_of_int M :: u32)"
    unfolding e64 by (rule ucast_of_int_64_32)
  have "\<exists>pt'. pt_process_missed_ticks HVMPTM_delay_for_missed_ticks now pt = Some pt'
           \<and> pending_intr_nr pt' = pending_intr_nr pt + word_of_int M
           \<and> scheduled pt' = scheduled pt + word_of_int M * period pt"
    using assms(3-) d
    by (simp add: pt_process_missed_ticks_def Let_def e32 e64 ucast_of_int_64_32)
  then show ?thesis unfolding M_def .
qed

theorem pt_process_missed_ticks_delay_mode_witness:
  "\<exists>pt'. pt_process_missed_ticks HVMPTM_delay_for_missed_ticks 5700000 pt_periodic = Some pt'
           \<and> pending_intr_nr pt' = 5 \<and> scheduled pt' = 6000000"
  using pt_process_missed_ticks_delay_mode [of 5700000 pt_periodic]
  by (simp add: pt_periodic_def signed_divide_int_def)

lemma pt_process_missed_ticks_frame:
  assumes "pt_process_missed_ticks m now pt = Some pt'"
  shows "on_list pt' = on_list pt \<and> one_shot pt' = one_shot pt \<and> irq_issued pt' = irq_issued pt
       \<and> source pt' = source pt \<and> irq pt' = irq pt \<and> vcpu pt' = vcpu pt
       \<and> period pt' = period pt \<and> period_cycles pt' = period_cycles pt
       \<and> last_plt_gtime pt' = last_plt_gtime pt \<and> timer pt' = timer pt
       \<and> cb pt' = cb pt \<and> priv pt' = priv pt"
  using assms by (auto simp: pt_process_missed_ticks_def Let_def split: if_splits)

lemma pt_process_missed_ticks_irq_issued:
  "pt_process_missed_ticks m now pt = Some pt' \<Longrightarrow> irq_issued pt' = irq_issued pt"
  by (drule pt_process_missed_ticks_frame) simp

lemma pt_process_missed_ticks_no_missed:
  "pt_process_missed_ticks HVMPTM_no_missed_ticks_pending now pt = Some pt' \<Longrightarrow>
     pending_intr_nr pt' = pending_intr_nr pt"
  by (auto simp: pt_process_missed_ticks_def Let_def split: if_splits)

text \<open>
  The processor does not wrap the counter when the period is positive as an \<open>s_time_t\<close>
  and the pending ticks plus the missed ones fit 32 bits.
\<close>

lemma pt_process_missed_ticks_grows:
  assumes r: "pt_process_missed_ticks m now pt = Some pt'"
      and P: "0 < sint (period pt)"
      and fit: "uint (pending_intr_nr pt) + (sint (now - scheduled pt) div sint (period pt) + 1) < 2 ^ 32"
  shows "pending_intr_nr pt \<le> pending_intr_nr pt'"
proof (cases "one_shot pt \<or> sint (now - scheduled pt) \<le> 0 \<or> m = HVMPTM_no_missed_ticks_pending")
  case True
  then have "pending_intr_nr pt' = pending_intr_nr pt"
    using r by (auto simp: pt_process_missed_ticks_def Let_def split: if_splits)
  then show ?thesis by simp
next
  case False
  define M where "M = sint (now - scheduled pt) div sint (period pt) + 1"
  have d: "0 < sint (now - scheduled pt)" using False by simp
  have sd: "sint (now - scheduled pt) sdiv sint (period pt) = sint (now - scheduled pt) div sint (period pt)"
    using d P by (simp add: signed_divide_int_def sgn_if)
  have e64: "s64_div (now - scheduled pt) (period pt) + 1 = word_of_int M"
    by (simp add: s64_div_def sd M_def)
  have e32: "ucast (s64_div (now - scheduled pt) (period pt) + 1) = (word_of_int M :: u32)"
    unfolding e64 by (rule ucast_of_int_64_32)
  have Mpos: "0 \<le> M" using d P by (simp add: M_def pos_imp_zdiv_nonneg_iff)
  have "pending_intr_nr pt' = pending_intr_nr pt + word_of_int M"
    using r False by (auto simp: pt_process_missed_ticks_def Let_def e32 split: if_splits)
  moreover have "uint (pending_intr_nr pt + word_of_int M) = uint (pending_intr_nr pt) + M"
  proof -
    have "uint (pending_intr_nr pt + word_of_int M) = (uint (pending_intr_nr pt) + M) mod 2 ^ 32"
      by (simp add: uint_word_ariths uint_word_of_int mod_add_right_eq)
    also have "\<dots> = uint (pending_intr_nr pt) + M"
      using fit Mpos by (simp add: M_def)
    finally show ?thesis .
  qed
  ultimately show ?thesis using Mpos by (simp add: word_le_def)
qed

lemma pt_process_missed_ticks_fit_grows:
  assumes r: "pt_process_missed_ticks m now pt = Some pt'" and f: "ticks_fit now pt"
  shows "pending_intr_nr pt \<le> pending_intr_nr pt'"
proof (cases "one_shot pt \<or> sint (now - scheduled pt) \<le> 0")
  case True
  then have "pt' = pt"
    using r by (auto simp: pt_process_missed_ticks_def Let_def split: if_splits)
  then show ?thesis by simp
next
  case False
  with f show ?thesis
    using pt_process_missed_ticks_grows [OF r] by (simp add: ticks_fit_def)
qed

lemma sint_word_of_int_64:
  "- (2 ^ 63) \<le> k \<Longrightarrow> k < 2 ^ 63 \<Longrightarrow> sint (word_of_int k :: 64 word) = k"
  by (simp add: sint_sbintrunc' signed_take_bit_int_eq_self)

text \<open>
  Once the processor has run on a record whose ticks fit, the record is due later than
  \<open>now\<close>: running it again adds nothing.
\<close>

lemma pt_process_missed_ticks_fit_after:
  assumes r: "pt_process_missed_ticks m now pt = Some pt'" and f: "ticks_fit now pt"
  shows "ticks_fit now pt'"
proof (cases "one_shot pt \<or> sint (now - scheduled pt) \<le> 0")
  case True
  then have "pt' = pt"
    using r by (auto simp: pt_process_missed_ticks_def Let_def split: if_splits)
  then show ?thesis using f by simp
next
  case False
  define d where "d = sint (now - scheduled pt)"
  define P where "P = sint (period pt)"
  define M where "M = d div P + 1"
  have d: "0 < d" using False by (simp add: d_def)
  have P: "0 < P" using f False by (simp add: ticks_fit_def P_def)
  have Pm: "P < 2 ^ 63" using sint_lt [of "period pt"] by (simp add: P_def)
  have sd: "d sdiv P = d div P"
    using d P by (simp add: signed_divide_int_def sgn_if)
  have e64: "s64_div (now - scheduled pt) (period pt) + 1 = word_of_int M"
    by (simp add: s64_div_def sd M_def d_def [symmetric] P_def [symmetric])
  have sch: "scheduled pt' = scheduled pt + word_of_int M * period pt"
    using r False by (auto simp: pt_process_missed_ticks_def Let_def e64 split: if_splits)
  have wd: "now - scheduled pt = word_of_int d" by (simp add: d_def)
  have wp: "period pt = word_of_int P" by (simp add: P_def)
  have "now - scheduled pt' = (now - scheduled pt) - word_of_int M * period pt"
    by (simp add: sch)
  also have "\<dots> = word_of_int (d - M * P)"
    by (subst wd, subst wp) simp
  finally have diff: "now - scheduled pt' = word_of_int (d - M * P)" .
  have k: "d - M * P = d mod P - P"
    by (simp add: M_def algebra_simps)
  have lo: "- P \<le> d mod P - P" and hi: "d mod P - P < 0"
    using P by simp_all
  have "sint (now - scheduled pt') = d - M * P"
    unfolding diff using k lo hi Pm by (intro sint_word_of_int_64) simp_all
  then have "sint (now - scheduled pt') \<le> 0" using k hi by simp
  then show ?thesis by (simp add: ticks_fit_def)
qed


lemma expiry_fits_timer [simp]: "expiry_fits now (pt\<lparr>timer := t\<rparr>) = expiry_fits now pt"
  by (simp add: expiry_fits_def ticks_fit_def)

lemma ticks_fit_timer [simp]: "ticks_fit now (pt\<lparr>timer := t\<rparr>) = ticks_fit now pt"
  by (simp add: ticks_fit_def)

lemma word32_le_succ:
  fixes a :: u32
  assumes "uint a + 1 < 2 ^ 32"
  shows "a \<le> a + 1"
proof -
  have "uint (a + 1) = (uint a + 1) mod 2 ^ 32" by (simp add: uint_word_ariths)
  also have "\<dots> = uint a + 1" using assms by simp
  finally show ?thesis by (simp add: word_le_def)
qed

section \<open>Save, restore, migrate and expiry\<close>

text \<open>Operations that touch only host timers.\<close>

lemma pt_save_timer_loop_frame:
  "\<exists>t. pts (pt_save_timer_loop ps s) q = (pts s q)\<lparr>timer := t\<rparr>"
proof (induction ps arbitrary: s)
  case Nil
  have "pts s q = (pts s q)\<lparr>timer := timer (pts s q)\<rparr>" by simp
  then show ?case by (metis pt_save_timer_loop.simps(1))
next
  case (Cons a ps)
  show ?case
  proof (cases "do_not_freeze (pts s a)")
    case True
    then show ?thesis using Cons.IH [of s] by simp
  next
    case False
    obtain t where "pts (pt_save_timer_loop ps (pt_upd a (\<lambda>pt. pt\<lparr>timer := stop_timer (timer pt)\<rparr>) s)) q
        = (pts (pt_upd a (\<lambda>pt. pt\<lparr>timer := stop_timer (timer pt)\<rparr>) s) q)\<lparr>timer := t\<rparr>"
      using Cons.IH by blast
    then have "pts (pt_save_timer_loop (a # ps) s) q = (pts s q)\<lparr>timer := t\<rparr>"
      using False by (cases "q = a") simp_all
    then show ?thesis by blast
  qed
qed

lemma pt_save_timer_loop_mode [simp]:
  "timer_mode_param (pt_save_timer_loop ps s) = timer_mode_param s"
  by (induction ps arbitrary: s) auto

lemma pt_save_timer_effect:
  "irq_issued (pts (pt_save_timer e v s) q) = irq_issued (pts s q)
   \<and> pending_intr_nr (pts (pt_save_timer e v s) q) = pending_intr_nr (pts s q)"
  using pt_save_timer_loop_frame [of "tm_list (vcpus s v)" s q]
  by (auto simp: pt_save_timer_def)

lemma pt_migrate_loop_frame:
  "\<exists>t. pts (pt_migrate_loop v ps s) q = (pts s q)\<lparr>timer := t\<rparr>"
proof (induction ps arbitrary: s)
  case Nil
  have "pts s q = (pts s q)\<lparr>timer := timer (pts s q)\<rparr>" by simp
  then show ?case by (metis pt_migrate_loop.simps(1))
next
  case (Cons a ps)
  let ?s1 = "pt_upd a (\<lambda>pt. pt\<lparr>timer := migrate_timer (timer pt) (processor (vcpus s v))\<rparr>) s"
  obtain t where "pts (pt_migrate_loop v ps ?s1) q = (pts ?s1 q)\<lparr>timer := t\<rparr>"
    using Cons.IH by blast
  then have "pts (pt_migrate_loop v (a # ps) s) q = (pts s q)\<lparr>timer := t\<rparr>"
    by (cases "q = a") simp_all
  then show ?case by blast
qed

lemma pt_migrate_loop_mode [simp]:
  "timer_mode_param (pt_migrate_loop v ps s) = timer_mode_param s"
  by (induction ps arbitrary: s) auto

lemma pt_migrate_effect:
  "irq_issued (pts (pt_migrate v s) q) = irq_issued (pts s q)
   \<and> pending_intr_nr (pts (pt_migrate v s) q) = pending_intr_nr (pts s q)"
  using pt_migrate_loop_frame [of v "tm_list (vcpus s v)" s q]
  by (auto simp: pt_migrate_def)

lemma pt_restore_timer_loop_mode:
  "pt_restore_timer_loop e ps s = Some s' \<Longrightarrow> timer_mode_param s' = timer_mode_param s"
  by (induction ps arbitrary: s) (auto split: option.splits)

lemma pt_restore_timer_loop_irq_issued:
  "pt_restore_timer_loop e ps s = Some s' \<Longrightarrow> irq_issued (pts s' q) = irq_issued (pts s q)"
proof (induction ps arbitrary: s)
  case Nil
  then show ?case by simp
next
  case (Cons a ps)
  then obtain pt where pt: "pt_process_missed_ticks (timer_mode_param s) (NOW e) (pts s a) = Some pt"
    and rest: "pt_restore_timer_loop e ps
                 (pt_upd a (\<lambda>_. pt\<lparr>timer := set_timer (timer pt) (scheduled pt)\<rparr>) s) = Some s'"
    by (auto split: option.splits)
  show ?case
    using Cons.IH [OF rest] pt_process_missed_ticks_irq_issued [OF pt]
    by (cases "q = a") simp_all
qed

lemma pt_restore_timer_loop_no_missed:
  assumes "timer_mode_param s = HVMPTM_no_missed_ticks_pending"
      and "pt_restore_timer_loop e ps s = Some s'"
  shows "pending_intr_nr (pts s' q) = pending_intr_nr (pts s q)"
  using assms
proof (induction ps arbitrary: s)
  case Nil
  then show ?case by simp
next
  case (Cons a ps)
  then obtain pt where pt: "pt_process_missed_ticks HVMPTM_no_missed_ticks_pending (NOW e) (pts s a) = Some pt"
    and rest: "pt_restore_timer_loop e ps
                 (pt_upd a (\<lambda>_. pt\<lparr>timer := set_timer (timer pt) (scheduled pt)\<rparr>) s) = Some s'"
    by (auto split: option.splits)
  show ?case
    using Cons.IH [OF _ rest] Cons.prems(1) pt_process_missed_ticks_no_missed [OF pt]
    by (cases "q = a") simp_all
qed

lemma pt_restore_timer_loop_other:
  "pt_restore_timer_loop e ps s = Some s' \<Longrightarrow> q \<notin> set ps \<Longrightarrow> pts s' q = pts s q"
  by (induction ps arbitrary: s) (auto split: option.splits)

lemma pt_restore_timer_loop_of:
  "pt_restore_timer e v s = Some s' \<Longrightarrow>
     \<exists>s1. pt_restore_timer_loop e (tm_list (vcpus s v)) s = Some s1 \<and> pts s' = pts s1
          \<and> timer_mode_param s' = timer_mode_param s1"
  by (auto simp: pt_restore_timer_def split: option.splits)

lemma pt_restore_timer_mode:
  assumes "pt_restore_timer e v s = Some s'"
  shows "timer_mode_param s' = timer_mode_param s"
proof -
  from pt_restore_timer_loop_of [OF assms] obtain s1 where
    "pt_restore_timer_loop e (tm_list (vcpus s v)) s = Some s1"
    "timer_mode_param s' = timer_mode_param s1" by blast
  then show ?thesis using pt_restore_timer_loop_mode [of e "tm_list (vcpus s v)" s s1] by simp
qed

lemma pt_restore_timer_irq_issued:
  assumes "pt_restore_timer e v s = Some s'"
  shows "irq_issued (pts s' q) = irq_issued (pts s q)"
proof -
  from pt_restore_timer_loop_of [OF assms] obtain s1 where
    "pt_restore_timer_loop e (tm_list (vcpus s v)) s = Some s1" "pts s' = pts s1" by blast
  then show ?thesis
    using pt_restore_timer_loop_irq_issued [of e "tm_list (vcpus s v)" s s1 q] by simp
qed

lemma pt_restore_timer_other:
  assumes "pt_restore_timer e v s = Some s'" and "q \<notin> set (tm_list (vcpus s v))"
  shows "pts s' q = pts s q"
proof -
  from pt_restore_timer_loop_of [OF assms(1)] obtain s1 where
    "pt_restore_timer_loop e (tm_list (vcpus s v)) s = Some s1" "pts s' = pts s1" by blast
  then show ?thesis
    using pt_restore_timer_loop_other [of e "tm_list (vcpus s v)" s s1 q] assms(2) by simp
qed

lemma pt_restore_timer_no_missed:
  assumes "timer_mode_param s = HVMPTM_no_missed_ticks_pending"
      and "pt_restore_timer e v s = Some s'"
  shows "pending_intr_nr (pts s' q) = pending_intr_nr (pts s q)"
proof -
  from pt_restore_timer_loop_of [OF assms(2)] obtain s1 where
    "pt_restore_timer_loop e (tm_list (vcpus s v)) s = Some s1" "pts s' = pts s1" by blast
  then show ?thesis
    using pt_restore_timer_loop_no_missed [of s e "tm_list (vcpus s v)" s1 q] assms(1) by simp
qed

lemma pt_timer_fn_other:
  "pt_timer_fn e p s = Some s' \<Longrightarrow> q \<noteq> p \<Longrightarrow> pts s' q = pts s q"
  by (auto simp: pt_timer_fn_def Let_def split: option.splits if_splits)

lemma pt_timer_fn_irq_issued:
  "pt_timer_fn e p s = Some s' \<Longrightarrow> irq_issued (pts s' q) = irq_issued (pts s q)"
  by (cases "q = p")
     (auto simp: pt_timer_fn_def Let_def split: option.splits if_splits
           dest!: pt_process_missed_ticks_irq_issued)

lemma pt_timer_fn_mode:
  "pt_timer_fn e p s = Some s' \<Longrightarrow> timer_mode_param s' = timer_mode_param s"
  by (auto simp: pt_timer_fn_def Let_def split: option.splits if_splits)

lemma pt_timer_fn_no_missed:
  "timer_mode_param s = HVMPTM_no_missed_ticks_pending \<Longrightarrow> pt_timer_fn e p s = Some s' \<Longrightarrow>
     pending_intr_nr (pts s' p) = pending_intr_nr (pts s p) + 1"
  by (auto simp: pt_timer_fn_def Let_def split: option.splits if_splits
           dest!: pt_process_missed_ticks_no_missed)

lemma timer_expiry_effect:
  assumes "timer_expiry e p s = Some s'"
  shows "irq_issued (pts s' q) = irq_issued (pts s q)
       \<and> (q \<noteq> p \<longrightarrow> pending_intr_nr (pts s' q) = pending_intr_nr (pts s q))
       \<and> timer_mode_param s' = timer_mode_param s
       \<and> (timer_mode_param s = HVMPTM_no_missed_ticks_pending \<longrightarrow>
            pending_intr_nr (pts s' p) = pending_intr_nr (pts s p)
            \<or> pending_intr_nr (pts s' p) = pending_intr_nr (pts s p) + 1)"
proof (cases "active (timer (pts s p)) \<and> sint (expires (timer (pts s p))) \<le> sint (NOW e)")
  case False
  then have "s' = s" using assms by (auto simp: timer_expiry_def)
  then show ?thesis by simp
next
  case True
  let ?s1 = "pt_upd p (\<lambda>pt. pt\<lparr>timer := stop_timer (timer pt)\<rparr>) s"
  from True assms have f: "pt_timer_fn e p ?s1 = Some s'" by (simp add: timer_expiry_def)
  have "irq_issued (pts s' q) = irq_issued (pts s q)"
    using pt_timer_fn_irq_issued [OF f, of q] by (cases "q = p") simp_all
  moreover have "q \<noteq> p \<longrightarrow> pending_intr_nr (pts s' q) = pending_intr_nr (pts s q)"
    using pt_timer_fn_other [OF f, of q] by simp
  moreover have "timer_mode_param s' = timer_mode_param s"
    using pt_timer_fn_mode [OF f] by simp
  moreover have "timer_mode_param s = HVMPTM_no_missed_ticks_pending \<longrightarrow>
            pending_intr_nr (pts s' p) = pending_intr_nr (pts s p) + 1"
    using pt_timer_fn_no_missed [OF _ f] by simp
  ultimately show ?thesis by blast
qed

text \<open>
  An expiry and a restore do not lower the counter of a record whose ticks fit.
\<close>

lemma pt_timer_fn_fit_grows:
  assumes r: "pt_timer_fn e p s = Some s'" and f: "expiry_fits (NOW e) (pts s p)"
  shows "pending_intr_nr (pts s p) \<le> pending_intr_nr (pts s' p)"
proof -
  let ?pt = "(pts s p)\<lparr>pending_intr_nr := pending_intr_nr (pts s p) + 1\<rparr>"
  have step1: "pending_intr_nr (pts s p) \<le> pending_intr_nr (pts s p) + 1"
    using f by (simp add: expiry_fits_def word32_le_succ)
  show ?thesis
  proof (cases "one_shot (pts s p)")
    case True
    then have "pending_intr_nr (pts s' p) = pending_intr_nr (pts s p) + 1"
      using r by (auto simp: pt_timer_fn_def Let_def split: option.splits)
    then show ?thesis using step1 by simp
  next
    case False
    let ?pt1 = "?pt\<lparr>scheduled := scheduled ?pt + period ?pt\<rparr>"
    from r False obtain pt2 where
      pr: "pt_process_missed_ticks (timer_mode_param s) (NOW e) ?pt1 = Some pt2"
      and res: "pending_intr_nr (pts s' p) = pending_intr_nr pt2"
      by (auto simp: pt_timer_fn_def Let_def split: option.splits)
    have "ticks_fit (NOW e) ?pt1" using f by (simp add: expiry_fits_def)
    from pt_process_missed_ticks_fit_grows [OF pr this]
    have "pending_intr_nr (pts s p) + 1 \<le> pending_intr_nr pt2" by simp
    with step1 res show ?thesis by simp
  qed
qed

lemma timer_expiry_fit_grows:
  assumes r: "timer_expiry e p s = Some s'"
      and f: "\<not> (active (timer (pts s p)) \<and> sint (expires (timer (pts s p))) \<le> sint (NOW e))
              \<or> expiry_fits (NOW e) (pts s p)"
  shows "pending_intr_nr (pts s p) \<le> pending_intr_nr (pts s' p)"
proof (cases "active (timer (pts s p)) \<and> sint (expires (timer (pts s p))) \<le> sint (NOW e)")
  case False
  then have "s' = s" using r by (auto simp: timer_expiry_def)
  then show ?thesis by simp
next
  case True
  let ?s1 = "pt_upd p (\<lambda>pt. pt\<lparr>timer := stop_timer (timer pt)\<rparr>) s"
  from True r have t: "pt_timer_fn e p ?s1 = Some s'" by (simp add: timer_expiry_def)
  have "expiry_fits (NOW e) (pts ?s1 p)" using f True by simp
  from pt_timer_fn_fit_grows [OF t this] show ?thesis by simp
qed

lemma pt_restore_timer_loop_fit_grows:
  assumes "pt_restore_timer_loop e ps s = Some s'"
      and "\<forall>p\<in>set ps. \<not> irq_issued (pts s p) \<or> ticks_fit (NOW e) (pts s p)"
      and "irq_issued (pts s q)"
  shows "pending_intr_nr (pts s q) \<le> pending_intr_nr (pts s' q)"
  using assms
proof (induction ps arbitrary: s)
  case Nil
  then show ?case by simp
next
  case (Cons a ps)
  from Cons.prems(1) obtain pt where
    pt: "pt_process_missed_ticks (timer_mode_param s) (NOW e) (pts s a) = Some pt"
    and rest: "pt_restore_timer_loop e ps
                 (pt_upd a (\<lambda>_. pt\<lparr>timer := set_timer (timer pt) (scheduled pt)\<rparr>) s) = Some s'"
    by (auto split: option.splits)
  let ?s1 = "pt_upd a (\<lambda>_. pt\<lparr>timer := set_timer (timer pt) (scheduled pt)\<rparr>) s"
  have iss: "irq_issued pt = irq_issued (pts s a)"
    using pt_process_missed_ticks_irq_issued [OF pt] .
  have afit: "irq_issued (pts s a) \<Longrightarrow> ticks_fit (NOW e) (pts s a)"
    using Cons.prems(2) by simp
  have g1: "\<forall>p\<in>set ps. \<not> irq_issued (pts ?s1 p) \<or> ticks_fit (NOW e) (pts ?s1 p)"
  proof
    fix p assume p: "p \<in> set ps"
    show "\<not> irq_issued (pts ?s1 p) \<or> ticks_fit (NOW e) (pts ?s1 p)"
    proof (cases "p = a")
      case True
      then show ?thesis
        using iss afit pt_process_missed_ticks_fit_after [OF pt] by auto
    next
      case False
      then show ?thesis using Cons.prems(2) p by simp
    qed
  qed
  have q1: "irq_issued (pts ?s1 q)" using Cons.prems(3) iss by (cases "q = a") simp_all
  from Cons.IH [OF rest g1 q1]
  have later: "pending_intr_nr (pts ?s1 q) \<le> pending_intr_nr (pts s' q)" .
  show ?case
  proof (cases "q = a")
    case True
    then have "pending_intr_nr (pts s q) \<le> pending_intr_nr pt"
      using pt_process_missed_ticks_fit_grows [OF pt] afit Cons.prems(3) by simp
    with later True show ?thesis by simp
  next
    case False
    with later show ?thesis by simp
  qed
qed

lemma pt_restore_timer_fit_grows:
  assumes "pt_restore_timer e v s = Some s'"
      and "\<forall>p\<in>set (tm_list (vcpus s v)). \<not> irq_issued (pts s p) \<or> ticks_fit (NOW e) (pts s p)"
      and "irq_issued (pts s q)"
  shows "pending_intr_nr (pts s q) \<le> pending_intr_nr (pts s' q)"
proof -
  from pt_restore_timer_loop_of [OF assms(1)] obtain s1 where
    "pt_restore_timer_loop e (tm_list (vcpus s v)) s = Some s1" "pts s' = pts s1" by blast
  then show ?thesis
    using pt_restore_timer_loop_fit_grows [of e "tm_list (vcpus s v)" s s1 q] assms(2,3) by simp
qed


section \<open>The injection selector\<close>

lemma pt_update_irq_scan_spec:
  "pt_update_irq_scan s ps (lag, e) = Some (lag', e') \<Longrightarrow>
     (e' = e \<and> lag' = lag \<and> (\<forall>q\<in>set ps. eligible q s \<longrightarrow> lag \<le> lag_key q s))
   \<or> (\<exists>xs p ys. ps = xs @ p # ys \<and> e' = Some p \<and> lag' = lag_key p s \<and> eligible p s
          \<and> lag' < lag
          \<and> (\<forall>q\<in>set xs. eligible q s \<longrightarrow> lag' < lag_key q s)
          \<and> (\<forall>q\<in>set ys. eligible q s \<longrightarrow> lag' \<le> lag_key q s))"
proof (induction ps arbitrary: lag e)
  case Nil
  then show ?case by simp
next
  case (Cons a ps)
  from Cons.prems obtain masked where m: "pt_irq_masked s (pts s a) = Some masked"
    by (auto split: option.splits)
  show ?case
  proof (cases "\<not> masked \<and> pending_intr_nr (pts s a) \<noteq> 0 \<and> lag_key a s < lag")
    case True
    then have el: "eligible a s" using m by (simp add: eligible_def)
    from True m Cons.prems
    have rec: "pt_update_irq_scan s ps (lag_key a s, Some a) = Some (lag', e')"
      by (simp add: lag_key_def)
    from Cons.IH [OF rec] show ?thesis
    proof (elim disjE exE conjE)
      assume "e' = Some a" "lag' = lag_key a s"
        and "\<forall>q\<in>set ps. eligible q s \<longrightarrow> lag_key a s \<le> lag_key q s"
      then have "a # ps = [] @ a # ps \<and> e' = Some a \<and> lag' = lag_key a s \<and> eligible a s
          \<and> lag' < lag
          \<and> (\<forall>q\<in>set []. eligible q s \<longrightarrow> lag' < lag_key q s)
          \<and> (\<forall>q\<in>set ps. eligible q s \<longrightarrow> lag' \<le> lag_key q s)"
        using True el by simp
      then show ?thesis by blast
    next
      fix xs p ys
      assume "ps = xs @ p # ys" "e' = Some p" "lag' = lag_key p s" "eligible p s"
        "lag' < lag_key a s"
        "\<forall>q\<in>set xs. eligible q s \<longrightarrow> lag' < lag_key q s"
        "\<forall>q\<in>set ys. eligible q s \<longrightarrow> lag' \<le> lag_key q s"
      then have "a # ps = (a # xs) @ p # ys \<and> e' = Some p \<and> lag' = lag_key p s \<and> eligible p s
          \<and> lag' < lag
          \<and> (\<forall>q\<in>set (a # xs). eligible q s \<longrightarrow> lag' < lag_key q s)
          \<and> (\<forall>q\<in>set ys. eligible q s \<longrightarrow> lag' \<le> lag_key q s)"
        using True by auto
      then show ?thesis by blast
    qed
  next
    case False
    then have na: "eligible a s \<longrightarrow> lag \<le> lag_key a s"
      using m by (auto simp: eligible_def)
    from False m Cons.prems
    have rec: "pt_update_irq_scan s ps (lag, e) = Some (lag', e')"
      by (auto simp: lag_key_def)
    from Cons.IH [OF rec] show ?thesis
    proof (elim disjE exE conjE)
      assume "e' = e" "lag' = lag" "\<forall>q\<in>set ps. eligible q s \<longrightarrow> lag \<le> lag_key q s"
      then show ?thesis using na by simp
    next
      fix xs p ys
      assume "ps = xs @ p # ys" "e' = Some p" "lag' = lag_key p s" "eligible p s"
        "lag' < lag"
        "\<forall>q\<in>set xs. eligible q s \<longrightarrow> lag' < lag_key q s"
        "\<forall>q\<in>set ys. eligible q s \<longrightarrow> lag' \<le> lag_key q s"
      then have "a # ps = (a # xs) @ p # ys \<and> e' = Some p \<and> lag' = lag_key p s \<and> eligible p s
          \<and> lag' < lag
          \<and> (\<forall>q\<in>set (a # xs). eligible q s \<longrightarrow> lag' < lag_key q s)
          \<and> (\<forall>q\<in>set ys. eligible q s \<longrightarrow> lag' \<le> lag_key q s)"
        using na by auto
      then show ?thesis by blast
    qed
  qed
qed

lemma word64_less_max: "(x :: u64) < - 1 \<longleftrightarrow> x \<noteq> - 1"
  by (metis word_order.extremum_strict word_order.not_eq_extremum)

text \<open>
  What \<open>pt_update_irq\<close> selects: either nothing, and then every eligible record of the
  list has key \<open>2^64 - 1\<close>; or the first record, in list order, among the eligible ones of
  minimum key, which it marks \<open>irq_issued\<close> and whose line it asserts.
\<close>

lemma pt_update_irq_selects:
  assumes "pt_update_irq v s = Some s'"
  shows "(s' = s \<and> (\<forall>q\<in>set (tm_list (vcpus s v)). eligible q s \<longrightarrow> lag_key q s = - 1))
       \<or> (\<exists>xs p ys. tm_list (vcpus s v) = xs @ p # ys \<and> eligible p s \<and> lag_key p s \<noteq> - 1
            \<and> (\<forall>q\<in>set xs. eligible q s \<longrightarrow> lag_key p s < lag_key q s)
            \<and> (\<forall>q\<in>set ys. eligible q s \<longrightarrow> lag_key p s \<le> lag_key q s)
            \<and> s' = (pt_upd p (\<lambda>pt. pt\<lparr>irq_issued := True\<rparr>) s)
                     \<lparr>trace := trace s @
                        (if source (pts s p) = PTSRC_lapic
                         then [Vlapic_set_irq v (irq (pts s p))]
                         else [Hvm_isa_irq_deassert (irq (pts s p)),
                               Hvm_isa_irq_assert (irq (pts s p))])\<rparr>)"
proof -
  from assms obtain lag' e' where
    scan: "pt_update_irq_scan s (tm_list (vcpus s v)) (- 1, None) = Some (lag', e')"
    by (auto simp: pt_update_irq_def split: option.splits)
  from pt_update_irq_scan_spec [OF scan] show ?thesis
  proof (elim disjE exE conjE)
    assume e: "e' = None" and "lag' = - 1"
      and all: "\<forall>q\<in>set (tm_list (vcpus s v)). eligible q s \<longrightarrow> - 1 \<le> lag_key q s"
    from e scan assms have "s' = s" by (simp add: pt_update_irq_def)
    moreover have "\<forall>q\<in>set (tm_list (vcpus s v)). eligible q s \<longrightarrow> lag_key q s = - 1"
      using all by (metis word_order.extremum_unique)
    ultimately show ?thesis by blast
  next
    fix xs p ys
    assume l: "tm_list (vcpus s v) = xs @ p # ys" and e: "e' = Some p"
      and k: "lag' = lag_key p s" and el: "eligible p s" and lt: "lag' < - 1"
      and before: "\<forall>q\<in>set xs. eligible q s \<longrightarrow> lag' < lag_key q s"
      and after: "\<forall>q\<in>set ys. eligible q s \<longrightarrow> lag' \<le> lag_key q s"
    from e scan
    have "pt_update_irq v s = Some ((pt_upd p (\<lambda>pt. pt\<lparr>irq_issued := True\<rparr>) s)
                     \<lparr>trace := trace s @
                        (if source (pts s p) = PTSRC_lapic
                         then [Vlapic_set_irq v (irq (pts s p))]
                         else [Hvm_isa_irq_deassert (irq (pts s p)),
                               Hvm_isa_irq_assert (irq (pts s p))])\<rparr>)"
      by (simp add: pt_update_irq_def Let_def)
    with assms
    have "s' = (pt_upd p (\<lambda>pt. pt\<lparr>irq_issued := True\<rparr>) s)
                     \<lparr>trace := trace s @
                        (if source (pts s p) = PTSRC_lapic
                         then [Vlapic_set_irq v (irq (pts s p))]
                         else [Hvm_isa_irq_deassert (irq (pts s p)),
                               Hvm_isa_irq_assert (irq (pts s p))])\<rparr>"
      by simp
    moreover have "lag_key p s \<noteq> - 1" using lt k by (simp add: word64_less_max)
    ultimately show ?thesis using l el before after k by blast
  qed
qed

text \<open>
  A call of \<open>pt_update_irq\<close> adds at most one line assertion to the trace.
\<close>

lemma pt_update_irq_one_line:
  assumes "pt_update_irq v s = Some s'"
  shows "\<exists>evs. trace s' = trace s @ evs \<and> length (filter asserts_line evs) \<le> 1"
  using pt_update_irq_selects [OF assms]
proof (elim disjE exE conjE)
  assume "s' = s"
  then have "trace s' = trace s @ [] \<and> length (filter asserts_line []) \<le> 1" by simp
  then show ?thesis by blast
next
  fix xs p ys
  assume s': "s' = (pt_upd p (\<lambda>pt. pt\<lparr>irq_issued := True\<rparr>) s)
                     \<lparr>trace := trace s @
                        (if source (pts s p) = PTSRC_lapic
                         then [Vlapic_set_irq v (irq (pts s p))]
                         else [Hvm_isa_irq_deassert (irq (pts s p)),
                               Hvm_isa_irq_assert (irq (pts s p))])\<rparr>"
  let ?evs = "(if source (pts s p) = PTSRC_lapic
                         then [Vlapic_set_irq v (irq (pts s p))]
                         else [Hvm_isa_irq_deassert (irq (pts s p)),
                               Hvm_isa_irq_assert (irq (pts s p))])"
  have "trace s' = trace s @ ?evs" unfolding s' by simp
  moreover have "length (filter asserts_line ?evs) \<le> 1" by simp
  ultimately show ?thesis by blast
qed

lemma pt_update_irq_effect:
  assumes "pt_update_irq v s = Some s'"
  shows "pending_intr_nr (pts s' q) = pending_intr_nr (pts s q)
       \<and> (irq_issued (pts s' q) \<longrightarrow> irq_issued (pts s q) \<or> pending_intr_nr (pts s q) \<noteq> 0)
       \<and> timer_mode_param s' = timer_mode_param s"
  using pt_update_irq_selects [OF assms]
proof (elim disjE exE conjE)
  assume "s' = s"
  then show ?thesis by simp
next
  fix xs p ys
  assume el: "eligible p s"
    and s': "s' = (pt_upd p (\<lambda>pt. pt\<lparr>irq_issued := True\<rparr>) s)
                     \<lparr>trace := trace s @
                        (if source (pts s p) = PTSRC_lapic
                         then [Vlapic_set_irq v (irq (pts s p))]
                         else [Hvm_isa_irq_deassert (irq (pts s p)),
                               Hvm_isa_irq_assert (irq (pts s p))])\<rparr>"
  have "pts s' q = (if q = p then (pts s p)\<lparr>irq_issued := True\<rparr> else pts s q)"
    and "timer_mode_param s' = timer_mode_param s"
    unfolding s' by simp_all
  then show ?thesis using el by (simp add: eligible_def)
qed

lemma pt_update_irq_scan_returns:
  "\<forall>q\<in>set ps. pt_irq_masked s (pts s q) \<noteq> None \<Longrightarrow> \<exists>r. pt_update_irq_scan s ps acc = Some r"
  by (induction ps arbitrary: acc) auto

lemma pt_update_irq_returns:
  "\<forall>q\<in>set (tm_list (vcpus s v)). pt_irq_masked s (pts s q) \<noteq> None \<Longrightarrow>
     \<exists>s'. pt_update_irq v s = Some s'"
  using pt_update_irq_scan_returns [of "tm_list (vcpus s v)" s "(- 1, None)"]
  by (auto simp: pt_update_irq_def Let_def split: option.splits)

text \<open>
  C9. \<open>max_lag\<close> starts at \<open>2^64 - 1\<close> and the comparison is strict, so a record
  whose key is \<open>2^64 - 1\<close> is never the one selected; and when every eligible record of
  the list has that key, \<open>pt_update_irq\<close> returns with the state as it was: no record
  marked, no line asserted.
\<close>

theorem pt_update_irq_max_key_never_selected:
  "(pt_update_irq v s = Some s' \<and> lag_key p s = - 1 \<longrightarrow> pts s' p = pts s p)
   \<and> ((\<forall>q\<in>set (tm_list (vcpus s v)).
          pt_irq_masked s (pts s q) \<noteq> None \<and> (eligible q s \<longrightarrow> lag_key q s = - 1))
        \<longrightarrow> pt_update_irq v s = Some s)"
proof (intro conjI impI)
  assume a: "pt_update_irq v s = Some s' \<and> lag_key p s = - 1"
  then show "pts s' p = pts s p"
    using pt_update_irq_selects [of v s s'] by auto
next
  assume a: "\<forall>q\<in>set (tm_list (vcpus s v)).
          pt_irq_masked s (pts s q) \<noteq> None \<and> (eligible q s \<longrightarrow> lag_key q s = - 1)"
  then obtain s' where s': "pt_update_irq v s = Some s'"
    using pt_update_irq_returns [of s v] by blast
  from pt_update_irq_selects [OF s'] a have "s' = s" by auto
  with s' show "pt_update_irq v s = Some s" by simp
qed

text \<open>
  An eligible record with key \<open>2^64 - 1\<close> alone on the list: nothing is asserted.
  With a second eligible record behind it, the second one is marked and the first is not.
\<close>

theorem pt_update_irq_max_key_never_selected_witness:
  "eligible 0 hvm_max_key \<and> lag_key 0 hvm_max_key = - 1
   \<and> pt_update_irq 0 hvm_max_key = Some hvm_max_key
   \<and> eligible 0 hvm_two_timers \<and> lag_key 0 hvm_two_timers = - 1
   \<and> (\<exists>s'. pt_update_irq 0 hvm_two_timers = Some s' \<and> irq_issued (pts s' 1)
          \<and> pts s' 0 = pts hvm_two_timers 0)"
proof -
  have a: "eligible 0 hvm_max_key \<and> lag_key 0 hvm_max_key = - 1
      \<and> pt_update_irq 0 hvm_max_key = Some hvm_max_key"
    using pt_update_irq_max_key_never_selected [of 0 hvm_max_key hvm_max_key 0]
    by (simp add: hvm_max_key_def hvm_boot_def vcpu_idle_def pt_max_key_def pt_periodic_def
          eligible_def lag_key_def pt_irq_masked_def)
  have b: "eligible 0 hvm_two_timers \<and> lag_key 0 hvm_two_timers = - 1"
    by (simp add: hvm_two_timers_def hvm_boot_def vcpu_idle_def pt_max_key_def pt_periodic_def
          eligible_def lag_key_def pt_irq_masked_def)
  have "\<exists>s'. pt_update_irq 0 hvm_two_timers = Some s' \<and> irq_issued (pts s' 1)"
    by (simp add: hvm_two_timers_def hvm_boot_def vcpu_idle_def pt_max_key_def pt_periodic_def
          pt_blank_def pt_update_irq_def pt_irq_masked_def pt_upd_def Let_def)
  then obtain s' where r: "pt_update_irq 0 hvm_two_timers = Some s'"
    and i: "irq_issued (pts s' 1)" by blast
  from pt_update_irq_max_key_never_selected [of 0 hvm_two_timers s' 0] r b
  have "pts s' 0 = pts hvm_two_timers 0" by blast
  with a b r i show ?thesis by blast
qed

text \<open>
  C4 at a failing input. The guest time of vCPU 0 stands at \<open>2^64 - 3000001\<close> when a
  1 ms ISA timer is created (3000000 cycles per period); the timer expires once. The record
  is then eligible, and it is the only one, yet \<open>pt_update_irq\<close> asserts no line and
  marks nothing: the trace holds the kick of the expiry only.
\<close>

theorem pt_update_irq_skips_only_eligible:
  "map_option (eligible 0)
     (run [(env_at 0, Create_periodic_time 0 0 1000000 0 0 None 0),
           (env_at 1000000, Timer_expiry 0)] hvm_tsc_written) = Some True
   \<and> map_option trace
     (run [(env_at 0, Create_periodic_time 0 0 1000000 0 0 None 0),
           (env_at 1000000, Timer_expiry 0),
           (env_at 1000000, Pt_update_irq 0)] hvm_tsc_written) = Some [Vcpu_kick 0]
   \<and> map_option (irq_issued \<circ> pt_of 0)
     (run [(env_at 0, Create_periodic_time 0 0 1000000 0 0 None 0),
           (env_at 1000000, Timer_expiry 0),
           (env_at 1000000, Pt_update_irq 0)] hvm_tsc_written) = Some False"
  by (simp add: hvm_tsc_written_def hvm_boot_def env_at_def pt_of_def create_periodic_time_def
     destroy_periodic_time_def pt_blank_def vcpu_idle_def hvm_get_guest_time_def
     init_timer_def set_timer_def timer_expiry_def pt_timer_fn_def stop_timer_def
     pt_process_missed_ticks_def Let_def eligible_def pt_irq_masked_def pt_update_irq_def
     pt_upd_def list_add_def list_del_def)

section \<open>The acknowledgement\<close>

lemma is_pt_irq_loop_no_match:
  assumes "intack_source intack = hvm_intsrc_pic \<or> intack_source intack = hvm_intsrc_lapic"
      and "\<forall>p\<in>set ps. vcpu (pts s p) \<noteq> None
             \<and> \<not> (pending_intr_nr (pts s p) \<noteq> 0 \<and> irq_issued (pts s p)
                   \<and> pt_irq_vector s (pts s p) (intack_source intack)
                       = Some (uint (intack_vector intack)))"
  shows "is_pt_irq_loop s ps intack = Some None"
  using assms(2)
proof (induction ps)
  case Nil
  then show ?case by simp
next
  case (Cons a ps)
  then have rest: "is_pt_irq_loop s ps intack = Some None" by simp
  from Cons.prems have a: "vcpu (pts s a) \<noteq> None"
    and na: "\<not> (pending_intr_nr (pts s a) \<noteq> 0 \<and> irq_issued (pts s a)
                   \<and> pt_irq_vector s (pts s a) (intack_source intack)
                       = Some (uint (intack_vector intack)))"
    by simp_all
  have "pt_irq_vector s (pts s a) (intack_source intack) \<noteq> None"
    using a assms(1) by (auto simp: pt_irq_vector_def Let_def)
  then obtain vec where vec: "pt_irq_vector s (pts s a) (intack_source intack) = Some vec"
    by blast
  show ?case using rest na vec by auto
qed

text \<open>
  C6. When the acknowledged source is the PIC or the local APIC and no record of the list
  has a tick pending, has been issued and resolves to the acknowledged vector,
  \<open>pt_intr_post\<close> returns the state as it was: records, lists, guest time and trace (so
  no callback). The records of the list are taken to have an owning vCPU.
\<close>

theorem pt_intr_post_no_match:
  assumes "intack_source intack = hvm_intsrc_pic \<or> intack_source intack = hvm_intsrc_lapic"
      and "\<forall>p\<in>set (tm_list (vcpus s v)). vcpu (pts s p) \<noteq> None
             \<and> \<not> (pending_intr_nr (pts s p) \<noteq> 0 \<and> irq_issued (pts s p)
                   \<and> pt_irq_vector s (pts s p) (intack_source intack)
                       = Some (uint (intack_vector intack)))"
  shows "pt_intr_post e v intack s = Some s"
  using is_pt_irq_loop_no_match [OF assms]
  by (simp add: pt_intr_post_def is_pt_irq_def)

text \<open>
  The issued ISA timer resolves to vector 8 through the PIC; vector 9 is not its own.
\<close>

theorem pt_intr_post_no_match_witness:
  "pending_intr_nr (pts hvm_issued 0) \<noteq> 0 \<and> irq_issued (pts hvm_issued 0)
   \<and> pt_irq_vector hvm_issued (pts hvm_issued 0) hvm_intsrc_pic = Some 8
   \<and> pt_intr_post (env_at 0) 0 \<lparr>intack_source = hvm_intsrc_pic, intack_vector = 9\<rparr> hvm_issued
       = Some hvm_issued"
  using pt_intr_post_no_match
          [of "\<lparr>intack_source = hvm_intsrc_pic, intack_vector = 9\<rparr>" hvm_issued 0 "env_at 0"]
  by (simp add: hvm_issued_def hvm_boot_def vcpu_idle_def pt_periodic_def pt_irq_vector_def)

lemma is_pt_irq_loop_found:
  "is_pt_irq_loop s ps intack = Some (Some p) \<Longrightarrow> p \<in> set ps"
  by (induction ps) (auto split: if_splits option.splits)

lemma is_pt_irq_loop_pending:
  "is_pt_irq_loop s ps intack = Some (Some p) \<Longrightarrow> pending_intr_nr (pts s p) \<noteq> 0"
  by (induction ps) (auto split: if_splits option.splits)

text \<open>
  C8. When \<open>is_pt_irq\<close> finds a one-shot record (which is on a list),
  \<open>pt_intr_post\<close> unlinks it, clears \<open>on_list\<close>, \<open>irq_issued\<close> and
  \<open>do_not_freeze\<close>, and leaves \<open>pending_intr_nr\<close> and \<open>last_plt_gtime\<close> as they
  were.
\<close>

theorem pt_intr_post_one_shot:
  assumes "is_pt_irq s v intack = Some (Some p)"
      and "one_shot (pts s p)" and "on_list (pts s p)"
  shows "\<exists>s'. pt_intr_post e v intack s = Some s'
           \<and> (\<forall>u. p \<notin> set (tm_list (vcpus s' u)))
           \<and> \<not> on_list (pts s' p) \<and> \<not> irq_issued (pts s' p) \<and> \<not> do_not_freeze (pts s' p)
           \<and> pending_intr_nr (pts s' p) = pending_intr_nr (pts s p)
           \<and> last_plt_gtime (pts s' p) = last_plt_gtime (pts s p)"
  using assms
  by (auto simp: pt_intr_post_def Let_def split: option.splits)

text \<open>
  The issued one-shot LAPIC timer, acknowledged with its vector 48.
\<close>

theorem pt_intr_post_one_shot_witness:
  "is_pt_irq hvm_one_shot_issued 0 \<lparr>intack_source = hvm_intsrc_lapic, intack_vector = 48\<rparr>
     = Some (Some 0)
   \<and> one_shot (pts hvm_one_shot_issued 0) \<and> on_list (pts hvm_one_shot_issued 0)
   \<and> (\<exists>s'. pt_intr_post (env_at 2000000) 0
               \<lparr>intack_source = hvm_intsrc_lapic, intack_vector = 48\<rparr> hvm_one_shot_issued
             = Some s'
          \<and> (\<forall>u. 0 \<notin> set (tm_list (vcpus s' u)))
          \<and> \<not> on_list (pts s' 0) \<and> \<not> irq_issued (pts s' 0) \<and> \<not> do_not_freeze (pts s' 0)
          \<and> pending_intr_nr (pts s' 0) = 1
          \<and> last_plt_gtime (pts s' 0) = 0)"
  using pt_intr_post_one_shot
          [of hvm_one_shot_issued 0 "\<lparr>intack_source = hvm_intsrc_lapic, intack_vector = 48\<rparr>" 0
              "env_at 2000000"]
  by (simp add: hvm_one_shot_issued_def hvm_boot_def vcpu_idle_def pt_periodic_def
        pt_irq_vector_def is_pt_irq_def)

lemma pt_intr_post_found:
  assumes "is_pt_irq s v intack = Some (Some p)"
  shows "\<exists>s'. pt_intr_post e v intack s = Some s'
     \<and> timer_mode_param s' = timer_mode_param s
     \<and> pts s' = (pts s)(p :=
           (if one_shot (pts s p) then
              (pts s p)\<lparr>do_not_freeze := False, irq_issued := False, on_list := False\<rparr>
            else if timer_mode_param s = HVMPTM_one_missed_tick_pending then
              (pts s p)\<lparr>do_not_freeze := False, irq_issued := False,
                         last_plt_gtime := hvm_get_guest_time e s v, pending_intr_nr := 0\<rparr>
            else
              (pts s p)\<lparr>do_not_freeze := False, irq_issued := False,
                         last_plt_gtime := last_plt_gtime (pts s p) + period_cycles (pts s p),
                         pending_intr_nr := pending_intr_nr (pts s p) - 1\<rparr>))"
proof -
  let ?s1 = "pt_upd p (\<lambda>pt. pt\<lparr>do_not_freeze := False, irq_issued := False\<rparr>) s"
  let ?s2 = "(if one_shot (pts ?s1 p) then
                   pt_upd p (\<lambda>pt. pt\<lparr>on_list := False\<rparr>)
                     (if on_list (pts ?s1 p) then list_del p ?s1 else ?s1)
                 else if timer_mode_param ?s1 = HVMPTM_one_missed_tick_pending then
                   pt_upd p (\<lambda>pt. pt\<lparr>last_plt_gtime := hvm_get_guest_time e ?s1 v,
                                       pending_intr_nr := 0\<rparr>) ?s1
                 else
                   pt_upd p (\<lambda>pt. pt\<lparr>last_plt_gtime := last_plt_gtime pt + period_cycles pt,
                                       pending_intr_nr := pending_intr_nr pt - 1\<rparr>) ?s1)"
  let ?s3 = "(if timer_mode_param ?s2 = HVMPTM_delay_for_missed_ticks
                    \<and> hvm_get_guest_time e ?s2 v < last_plt_gtime (pts ?s2 p)
                 then hvm_set_guest_time e ?s2 v (last_plt_gtime (pts ?s2 p))
                 else ?s2)"
  let ?s4 = "(case cb (pts ?s3 p) of
                    None \<Rightarrow> ?s3
                  | Some f \<Rightarrow> ?s3\<lparr>trace := trace ?s3 @ [Time_cb f v (priv (pts ?s3 p))]\<rparr>)"
  have r: "pt_intr_post e v intack s = Some ?s4"
    using assms by (simp add: pt_intr_post_def Let_def)
  have m2: "timer_mode_param ?s2 = timer_mode_param s" by simp
  have p2: "pts ?s2 = (pts s)(p :=
           (if one_shot (pts s p) then
              (pts s p)\<lparr>do_not_freeze := False, irq_issued := False, on_list := False\<rparr>
            else if timer_mode_param s = HVMPTM_one_missed_tick_pending then
              (pts s p)\<lparr>do_not_freeze := False, irq_issued := False,
                         last_plt_gtime := hvm_get_guest_time e s v, pending_intr_nr := 0\<rparr>
            else
              (pts s p)\<lparr>do_not_freeze := False, irq_issued := False,
                         last_plt_gtime := last_plt_gtime (pts s p) + period_cycles (pts s p),
                         pending_intr_nr := pending_intr_nr (pts s p) - 1\<rparr>))"
    by (simp add: fun_eq_iff)
  have m3: "timer_mode_param ?s3 = timer_mode_param ?s2" by (simp only: hvm_set_guest_time_sel if_distrib [of timer_mode_param] if_cancel)
  have p3: "pts ?s3 = pts ?s2" by (simp only: hvm_set_guest_time_sel if_distrib [of pts] if_cancel)
  have m4: "timer_mode_param ?s4 = timer_mode_param ?s3" by (cases "cb (pts ?s3 p)") simp_all
  have p4: "pts ?s4 = pts ?s3" by (cases "cb (pts ?s3 p)") simp_all
  show ?thesis
    using r m2 p2 m3 p3 m4 p4 by (metis (no_types, lifting))
qed

lemma pt_intr_post_effect:
  assumes "pt_intr_post e v intack s = Some s'"
  shows "(irq_issued (pts s' q) = irq_issued (pts s q)
            \<and> pending_intr_nr (pts s' q) = pending_intr_nr (pts s q))
       \<or> (\<not> irq_issued (pts s' q) \<and> pending_intr_nr (pts s q) \<noteq> 0
            \<and> (pending_intr_nr (pts s' q) = pending_intr_nr (pts s q)
                \<or> (pending_intr_nr (pts s' q) = 0
                     \<and> timer_mode_param s = HVMPTM_one_missed_tick_pending)
                \<or> pending_intr_nr (pts s' q) = pending_intr_nr (pts s q) - 1))"
proof (cases "is_pt_irq s v intack")
  case None
  then show ?thesis using assms by (simp add: pt_intr_post_def)
next
  case (Some r)
  show ?thesis
  proof (cases r)
    case None
    then show ?thesis using assms Some by (simp add: pt_intr_post_def)
  next
    case (Some p)
    with \<open>is_pt_irq s v intack = Some r\<close>
    have f: "is_pt_irq s v intack = Some (Some p)" by simp
    then have pend: "pending_intr_nr (pts s p) \<noteq> 0"
      by (simp add: is_pt_irq_def is_pt_irq_loop_pending)
    from pt_intr_post_found [OF f, of e] assms
    have "pts s' = (pts s)(p :=
           (if one_shot (pts s p) then
              (pts s p)\<lparr>do_not_freeze := False, irq_issued := False, on_list := False\<rparr>
            else if timer_mode_param s = HVMPTM_one_missed_tick_pending then
              (pts s p)\<lparr>do_not_freeze := False, irq_issued := False,
                         last_plt_gtime := hvm_get_guest_time e s v, pending_intr_nr := 0\<rparr>
            else
              (pts s p)\<lparr>do_not_freeze := False, irq_issued := False,
                         last_plt_gtime := last_plt_gtime (pts s p) + period_cycles (pts s p),
                         pending_intr_nr := pending_intr_nr (pts s p) - 1\<rparr>))"
      by auto
    then show ?thesis using pend by (cases "q = p") auto
  qed
qed

lemma pt_intr_post_mode:
  assumes "pt_intr_post e v intack s = Some s'"
  shows "timer_mode_param s' = timer_mode_param s"
proof (cases "is_pt_irq s v intack")
  case None
  then show ?thesis using assms by (simp add: pt_intr_post_def)
next
  case (Some r)
  show ?thesis
  proof (cases r)
    case None
    then show ?thesis using assms Some by (simp add: pt_intr_post_def)
  next
    case (Some p)
    with \<open>is_pt_irq s v intack = Some r\<close>
    have f: "is_pt_irq s v intack = Some (Some p)" by simp
    from pt_intr_post_found [OF f, of e] assms show ?thesis by auto
  qed
qed

section \<open>Creation and destruction\<close>

lemma unat_mult_div_no_overflow:
  fixes a b :: "64 word"
  assumes "unat a * unat b < 2 ^ 64"
  shows "unat (a * b div 1000000) = unat a * unat b div 1000000"
proof -
  have "unat (a * b) = unat a * unat b"
    using assms by (simp add: unat_mult_lem [THEN iffD1])
  then show ?thesis by (simp add: unat_div)
qed

text \<open>
  C7. With \<open>source\<close> filled in, \<open>create_periodic_time\<close> returns; a period below
  900000 ns is raised to 900000 ns unless the timer is one-shot; \<open>pending_intr_nr\<close>,
  \<open>do_not_freeze\<close> and \<open>irq_issued\<close> are 0; \<open>scheduled\<close> is \<open>NOW() + period\<close>,
  plus \<open>period >> 1\<close> for a LAPIC source; \<open>period_cycles\<close> is
  \<open>period * cpu_khz / 1000000\<close> in 64-bit arithmetic, which is the exact quotient when the
  product does not overflow; the record is at the head of \<open>v\<close>'s list with \<open>on_list\<close>
  set, and its host timer is armed at \<open>scheduled\<close>.
\<close>

theorem create_periodic_time_result:
  assumes "source (pts s p) \<noteq> PTSRC_unset"
  shows "\<exists>s' rest. create_periodic_time e v p period0 irq0 one_shot0 cb0 data s = Some s'
     \<and> period (pts s' p) = (if period0 < 900000 \<and> one_shot0 = 0 then 900000 else period0)
     \<and> pending_intr_nr (pts s' p) = 0 \<and> \<not> do_not_freeze (pts s' p) \<and> \<not> irq_issued (pts s' p)
     \<and> scheduled (pts s' p) =
          NOW e + period (pts s' p)
            + (if source (pts s p) = PTSRC_lapic then drop_bit 1 (period (pts s' p)) else 0)
     \<and> period_cycles (pts s' p) = period (pts s' p) * cpu_khz e div 1000000
     \<and> (unat (period (pts s' p)) * unat (cpu_khz e) < 2 ^ 64 \<longrightarrow>
          unat (period_cycles (pts s' p))
            = unat (period (pts s' p)) * unat (cpu_khz e) div 1000000)
     \<and> tm_list (vcpus s' v) = p # rest \<and> on_list (pts s' p)
     \<and> active (timer (pts s' p)) \<and> expires (timer (pts s' p)) = scheduled (pts s' p)
     \<and> source (pts s' p) = source (pts s p)"
  using assms
  by (auto simp: create_periodic_time_def Let_def init_timer_def set_timer_def
        unat_mult_div_no_overflow)

text \<open>
  A request for a 0.5 ms periodic ISA timer at time 0 on the 3 GHz host.
\<close>

theorem create_periodic_time_result_witness:
  "source (pts (hvm_boot HVMPTM_no_delay_for_missed_ticks) 0) \<noteq> PTSRC_unset
   \<and> (\<exists>s' rest.
         create_periodic_time (env_at 0) 0 0 500000 0 0 None 0
           (hvm_boot HVMPTM_no_delay_for_missed_ticks) = Some s'
       \<and> period (pts s' 0) = 900000 \<and> pending_intr_nr (pts s' 0) = 0
       \<and> \<not> do_not_freeze (pts s' 0) \<and> \<not> irq_issued (pts s' 0)
       \<and> scheduled (pts s' 0) = 900000 \<and> period_cycles (pts s' 0) = 2700000
       \<and> tm_list (vcpus s' 0) = 0 # rest \<and> on_list (pts s' 0)
       \<and> active (timer (pts s' 0)) \<and> expires (timer (pts s' 0)) = 900000)"
  using create_periodic_time_result
          [of "hvm_boot HVMPTM_no_delay_for_missed_ticks" 0 "env_at 0" 0 500000 0 0 None 0]
  by (auto simp: hvm_boot_def pt_blank_def env_at_def)

lemma destroy_periodic_time_effect:
  "irq_issued (pts (destroy_periodic_time p s) q) = irq_issued (pts s q)
   \<and> pending_intr_nr (pts (destroy_periodic_time p s) q) = pending_intr_nr (pts s q)"
  by (simp add: destroy_periodic_time_def Let_def)

lemma create_periodic_time_asserts:
  "create_periodic_time e v p period0 irq0 one_shot0 cb0 data s = Some s' \<Longrightarrow>
     source (pts s p) \<noteq> PTSRC_unset"
  by (cases "source (pts s p) = PTSRC_unset") (simp_all add: create_periodic_time_def)

lemma create_periodic_time_other:
  assumes "source (pts s p) \<noteq> PTSRC_unset"
  shows "\<exists>s'. create_periodic_time e v p period0 irq0 one_shot0 cb0 data s = Some s'
           \<and> (q \<noteq> p \<longrightarrow> pts s' q = pts s q)
           \<and> timer_mode_param s' = timer_mode_param s"
  using assms
  by (simp add: create_periodic_time_def Let_def destroy_periodic_time_def)

lemma create_periodic_time_effect:
  assumes "create_periodic_time e v p period0 irq0 one_shot0 cb0 data s = Some s'"
  shows "(irq_issued (pts s' q) = irq_issued (pts s q)
            \<and> pending_intr_nr (pts s' q) = pending_intr_nr (pts s q))
       \<or> (\<not> irq_issued (pts s' q) \<and> pending_intr_nr (pts s' q) = 0)"
proof (cases "q = p")
  case True
  from create_periodic_time_result [OF create_periodic_time_asserts [OF assms],
          of e v period0 irq0 one_shot0 cb0 data] assms
  have "\<not> irq_issued (pts s' p) \<and> pending_intr_nr (pts s' p) = 0" by auto
  with True show ?thesis by simp
next
  case False
  from create_periodic_time_other [OF create_periodic_time_asserts [OF assms],
          of e v period0 irq0 one_shot0 cb0 data q] assms False
  have "pts s' q = pts s q" by auto
  then show ?thesis by simp
qed

lemma create_periodic_time_mode:
  assumes "create_periodic_time e v p period0 irq0 one_shot0 cb0 data s = Some s'"
  shows "timer_mode_param s' = timer_mode_param s"
  using create_periodic_time_other [OF create_periodic_time_asserts [OF assms],
          of e v period0 irq0 one_shot0 cb0 data p] assms
  by auto

section \<open>Reset\<close>

lemma pt_reset_loop_spec:
  fixes e :: env and s0 :: hvm_state
  defines "R \<equiv> \<lambda>pt. pt\<lparr>pending_intr_nr := 0,
        last_plt_gtime := hvm_get_guest_time e s0 (the (vcpu pt)),
        scheduled := NOW e + period pt,
        timer := (timer pt)\<lparr>expires := NOW e + period pt, active := \<not> killed (timer pt)\<rparr>\<rparr>"
  assumes "\<forall>q\<in>set ps. vcpu (pts s q) \<noteq> None"
      and "\<forall>q\<in>set ps. pts s q = pts s0 q \<or> pts s q = R (pts s0 q)"
      and "vcpus s = vcpus s0"
  shows "\<exists>s'. pt_reset_loop e ps s = Some s'
           \<and> (\<forall>q\<in>set ps. pts s' q = R (pts s0 q))
           \<and> (\<forall>q. q \<notin> set ps \<longrightarrow> pts s' q = pts s q)
           \<and> vcpus s' = vcpus s \<and> trace s' = trace s"
  using assms(2-)
proof (induction ps arbitrary: s)
  case Nil
  then show ?case by simp
next
  case (Cons a ps)
  from Cons.prems(1) obtain u where u: "vcpu (pts s a) = Some u" by auto
  let ?s1 = "pt_upd a (\<lambda>pt.
               let pt1 = pt\<lparr>pending_intr_nr := 0,
                             last_plt_gtime := hvm_get_guest_time e s u,
                             scheduled := NOW e + period pt\<rparr>
               in pt1\<lparr>timer := set_timer (timer pt1) (scheduled pt1)\<rparr>) s"
  have g: "hvm_get_guest_time e s u = hvm_get_guest_time e s0 u"
    using Cons.prems(3) by (simp add: hvm_get_guest_time_def)
  have a1: "pts ?s1 a = R (pts s0 a)"
    using Cons.prems(2) u g
    by (auto simp: R_def Let_def set_timer_def hvm_get_guest_time_def)
  have p1: "\<forall>q\<in>set ps. vcpu (pts ?s1 q) \<noteq> None"
    using Cons.prems(1) u by (auto simp: Let_def)
  have p2: "\<forall>q\<in>set ps. pts ?s1 q = pts s0 q \<or> pts ?s1 q = R (pts s0 q)"
    using Cons.prems(2) a1 by auto
  have p3: "vcpus ?s1 = vcpus s0" using Cons.prems(3) by simp
  from Cons.IH [OF p1 p2 p3] obtain s' where
    r: "pt_reset_loop e ps ?s1 = Some s'"
    and l: "\<forall>q\<in>set ps. pts s' q = R (pts s0 q)"
    and o: "\<forall>q. q \<notin> set ps \<longrightarrow> pts s' q = pts ?s1 q"
    and rest: "vcpus s' = vcpus ?s1" "trace s' = trace ?s1"
    by blast
  have "pt_reset_loop e (a # ps) s = Some s'" using r u by simp
  moreover have "\<forall>q\<in>set (a # ps). pts s' q = R (pts s0 q)"
    using l o a1 by (cases "a \<in> set ps") auto
  moreover have "\<forall>q. q \<notin> set (a # ps) \<longrightarrow> pts s' q = pts s q"
    using o by simp
  ultimately show ?case using rest by simp
qed

text \<open>
  C10. When every record of the list has an owning vCPU, \<open>pt_reset\<close> returns, and each
  record of the list differs from what it was only in \<open>pending_intr_nr\<close> (now 0),
  \<open>last_plt_gtime\<close> (the guest time of its vCPU), \<open>scheduled\<close> (\<open>NOW() + period\<close>)
  and its host timer, which \<open>set_timer\<close> arms at that deadline. All other fields of the
  record, the records off the list, the vCPUs and the trace are unchanged.
\<close>

theorem pt_reset_frame:
  assumes "\<forall>q\<in>set (tm_list (vcpus s v)). vcpu (pts s q) \<noteq> None"
  shows "\<exists>s'. pt_reset e v s = Some s'
     \<and> (\<forall>p\<in>set (tm_list (vcpus s v)).
           pts s' p =
             (pts s p)\<lparr>pending_intr_nr := 0,
                       last_plt_gtime := hvm_get_guest_time e s (the (vcpu (pts s p))),
                       scheduled := NOW e + period (pts s p),
                       timer := (timer (pts s p))\<lparr>expires := NOW e + period (pts s p),
                                                  active := \<not> killed (timer (pts s p))\<rparr>\<rparr>)
     \<and> (\<forall>p. p \<notin> set (tm_list (vcpus s v)) \<longrightarrow> pts s' p = pts s p)
     \<and> vcpus s' = vcpus s \<and> trace s' = trace s"
  using pt_reset_loop_spec [of "tm_list (vcpus s v)" s s e] assms
  by (simp add: pt_reset_def)

text \<open>
  Reset at 7 ms of the issued 1 ms timer: \<open>irq_issued\<close> stays set.
\<close>

theorem pt_reset_frame_witness:
  "\<exists>s'. pt_reset (env_at 7000000) 0 hvm_issued = Some s'
      \<and> pts s' 0 = pt_periodic\<lparr>pending_intr_nr := 0, irq_issued := True,
                                last_plt_gtime := 21000000, scheduled := 8000000,
                                timer := \<lparr>expires = 8000000, cpu = 0, active = True,
                                          killed = False\<rparr>\<rparr>"
  using pt_reset_frame [of hvm_issued 0 "env_at 7000000"]
  by (auto simp: hvm_issued_def hvm_boot_def vcpu_idle_def pt_periodic_def env_at_def
        hvm_get_guest_time_def)

lemma pt_reset_loop_effect:
  "pt_reset_loop e ps s = Some s' \<Longrightarrow>
     irq_issued (pts s' q) = irq_issued (pts s q)
     \<and> (pending_intr_nr (pts s' q) = pending_intr_nr (pts s q) \<or> pending_intr_nr (pts s' q) = 0)"
proof (induction ps arbitrary: s)
  case Nil
  then show ?case by simp
next
  case (Cons a ps)
  then obtain u where u: "vcpu (pts s a) = Some u" by (auto split: option.splits)
  let ?s1 = "pt_upd a (\<lambda>pt.
               let pt1 = pt\<lparr>pending_intr_nr := 0,
                             last_plt_gtime := hvm_get_guest_time e s u,
                             scheduled := NOW e + period pt\<rparr>
               in pt1\<lparr>timer := set_timer (timer pt1) (scheduled pt1)\<rparr>) s"
  from Cons.prems u have r: "pt_reset_loop e ps ?s1 = Some s'" by simp
  show ?case using Cons.IH [OF r] by (cases "q = a") (auto simp: Let_def)
qed

lemma pt_reset_loop_mode:
  "pt_reset_loop e ps s = Some s' \<Longrightarrow> timer_mode_param s' = timer_mode_param s"
  by (induction ps arbitrary: s) (auto split: option.splits)

lemma pt_reset_loop_other:
  "pt_reset_loop e ps s = Some s' \<Longrightarrow> q \<notin> set ps \<Longrightarrow> pts s' q = pts s q"
  by (induction ps arbitrary: s) (auto split: option.splits)

section \<open>Invariants along sequences of operations\<close>

lemma word32_le_1: "(x :: u32) \<le> 1 \<longleftrightarrow> x = 0 \<or> x = 1"
  by (metis word_le_sub1 diff_self word_order.extremum word_order.extremum_unique order_refl word_le_less_eq word_less_1)

lemma word32_le_nonzero: "(x :: u32) \<le> y \<Longrightarrow> x \<noteq> 0 \<Longrightarrow> y \<noteq> 0"
  by auto

lemma step_keeps_issued_pending:
  assumes st: "step e x s = Some s'"
      and g: "counters_fit s (e, x)"
      and inv: "\<forall>q. irq_issued (pts s q) \<longrightarrow> pending_intr_nr (pts s q) \<noteq> 0"
  shows "irq_issued (pts s' q) \<longrightarrow> pending_intr_nr (pts s' q) \<noteq> 0"
proof (cases x)
  case (Create_periodic_time v p period0 irq0 one_shot0 cb0 data)
  then show ?thesis
    using st inv create_periodic_time_effect [of e v p period0 irq0 one_shot0 cb0 data s s' q]
    by auto
next
  case (Destroy_periodic_time p)
  then show ?thesis using st inv destroy_periodic_time_effect [of p s q] by auto
next
  case (Pt_save_timer v)
  then show ?thesis using st inv pt_save_timer_effect [of e v s q] by auto
next
  case (Pt_restore_timer v)
  with st have r: "pt_restore_timer e v s = Some s'" by simp
  from g \<open>x = Pt_restore_timer v\<close>
  have f: "\<forall>p\<in>set (tm_list (vcpus s v)).
             \<not> irq_issued (pts s p) \<or> ticks_fit (NOW e) (pts s p)"
    by (simp add: list_all_iff)
  show ?thesis
  proof
    assume "irq_issued (pts s' q)"
    then have i: "irq_issued (pts s q)" using pt_restore_timer_irq_issued [OF r, of q] by simp
    from pt_restore_timer_fit_grows [OF r f i] inv i
    show "pending_intr_nr (pts s' q) \<noteq> 0" using word32_le_nonzero by blast
  qed
next
  case (Pt_update_irq v)
  then show ?thesis using st inv pt_update_irq_effect [of v s s' q] by auto
next
  case (Pt_intr_post v intack)
  then show ?thesis using st inv pt_intr_post_effect [of e v intack s s' q] by auto
next
  case (Pt_reset v)
  with st have r: "pt_reset_loop e (tm_list (vcpus s v)) s = Some s'" by (simp add: pt_reset_def)
  from g \<open>x = Pt_reset v\<close>
  have u: "\<forall>p\<in>set (tm_list (vcpus s v)). \<not> irq_issued (pts s p)"
    by (simp add: list_all_iff)
  show ?thesis
  proof
    assume "irq_issued (pts s' q)"
    then have i: "irq_issued (pts s q)" using pt_reset_loop_effect [OF r, of q] by simp
    with u have "q \<notin> set (tm_list (vcpus s v))" by blast
    from pt_reset_loop_other [OF r this] inv i
    show "pending_intr_nr (pts s' q) \<noteq> 0" by simp
  qed
next
  case (Pt_migrate v)
  then show ?thesis using st inv pt_migrate_effect [of v s q] by auto
next
  case (Timer_expiry p)
  with st have r: "timer_expiry e p s = Some s'" by simp
  show ?thesis
  proof
    assume "irq_issued (pts s' q)"
    then have i: "irq_issued (pts s q)" using timer_expiry_effect [OF r, of q] by simp
    show "pending_intr_nr (pts s' q) \<noteq> 0"
    proof (cases "q = p")
      case True
      with g i \<open>x = Timer_expiry p\<close>
      have "\<not> (active (timer (pts s p)) \<and> sint (expires (timer (pts s p))) \<le> sint (NOW e))
              \<or> expiry_fits (NOW e) (pts s p)" by simp
      from timer_expiry_fit_grows [OF r this] inv i True
      show ?thesis using word32_le_nonzero by blast
    next
      case False
      then show ?thesis using inv i timer_expiry_effect [OF r, of q] by simp
    qed
  qed
qed

lemma step_keeps_single_pending:
  assumes st: "step e x s = Some s'"
      and g: "expiry_after_ack s (e, x)"
      and m: "timer_mode_param s = HVMPTM_no_missed_ticks_pending"
      and inv: "\<forall>q. pending_intr_nr (pts s q) \<le> 1"
  shows "timer_mode_param s' = HVMPTM_no_missed_ticks_pending
       \<and> pending_intr_nr (pts s' q) \<le> 1"
proof (cases x)
  case (Create_periodic_time v p period0 irq0 one_shot0 cb0 data)
  then show ?thesis
    using st inv m create_periodic_time_effect [of e v p period0 irq0 one_shot0 cb0 data s s' q]
      create_periodic_time_mode [of e v p period0 irq0 one_shot0 cb0 data s s']
    by auto
next
  case (Destroy_periodic_time p)
  then show ?thesis using st inv m destroy_periodic_time_effect [of p s q] by auto
next
  case (Pt_save_timer v)
  then show ?thesis
    using st inv m pt_save_timer_effect [of e v s q] by (auto simp: pt_save_timer_def)
next
  case (Pt_restore_timer v)
  then show ?thesis
    using st inv m pt_restore_timer_no_missed [of s e v s' q] pt_restore_timer_mode [of e v s s']
    by auto
next
  case (Pt_update_irq v)
  then show ?thesis using st inv m pt_update_irq_effect [of v s s' q] by auto
next
  case (Pt_intr_post v intack)
  with st have r: "pt_intr_post e v intack s = Some s'" by simp
  have "pending_intr_nr (pts s q) = 0 \<or> pending_intr_nr (pts s q) = 1"
    using inv by (simp add: word32_le_1)
  then have "pending_intr_nr (pts s' q) \<le> 1"
    using pt_intr_post_effect [OF r, of q] inv by auto
  then show ?thesis using pt_intr_post_mode [OF r] m by simp
next
  case (Pt_reset v)
  with st have r: "pt_reset_loop e (tm_list (vcpus s v)) s = Some s'" by (simp add: pt_reset_def)
  show ?thesis
    using pt_reset_loop_effect [OF r, of q] pt_reset_loop_mode [OF r] inv m by auto
next
  case (Pt_migrate v)
  then show ?thesis
    using st inv m pt_migrate_effect [of v s q] by (auto simp: pt_migrate_def)
next
  case (Timer_expiry p)
  with st have r: "timer_expiry e p s = Some s'" by simp
  from g \<open>x = Timer_expiry p\<close> have z: "pending_intr_nr (pts s p) = 0" by simp
  show ?thesis
    using timer_expiry_effect [OF r, of q] inv m z by (cases "q = p") auto
qed

text \<open>
  C1, as stated, fails. A 1 ms timer is created, expires once and is selected by
  \<open>pt_update_irq\<close>, which sets \<open>irq_issued\<close>; then \<open>pt_reset\<close> clears
  \<open>pending_intr_nr\<close> and leaves \<open>irq_issued\<close> set.
\<close>

theorem issued_without_pending_after_reset:
  "map_option (irq_issued \<circ> pt_of 0)
     (run [(env_at 0, Create_periodic_time 0 0 1000000 0 0 None 0),
           (env_at 1000000, Timer_expiry 0),
           (env_at 1000000, Pt_update_irq 0),
           (env_at 1500000, Pt_reset 0)]
        (hvm_boot HVMPTM_no_delay_for_missed_ticks)) = Some True
   \<and> map_option (pending_intr_nr \<circ> pt_of 0)
     (run [(env_at 0, Create_periodic_time 0 0 1000000 0 0 None 0),
           (env_at 1000000, Timer_expiry 0),
           (env_at 1000000, Pt_update_irq 0),
           (env_at 1500000, Pt_reset 0)]
        (hvm_boot HVMPTM_no_delay_for_missed_ticks)) = Some 0"
  by (simp add: eval_defs)

text \<open>
  The invariant of C1 is broken by a wrap of the counter as well: the issued 1 ms timer,
  descheduled until \<open>2^32 - 1\<close> ticks have been missed, comes back from
  \<open>pt_restore_timer\<close> with \<open>pending_intr_nr = 0\<close> and \<open>irq_issued\<close> still set.
\<close>

theorem issued_without_pending_after_wrap:
  "map_option (irq_issued \<circ> pt_of 0)
     (run [(env_at 0, Create_periodic_time 0 0 1000000 0 0 None 0),
           (env_at 1000000, Timer_expiry 0),
           (env_at 1000000, Pt_update_irq 0),
           (env_at 1100000, Pt_save_timer 0),
           (env_at 4294967296000000, Pt_restore_timer 0)]
        (hvm_boot HVMPTM_no_delay_for_missed_ticks)) = Some True
   \<and> map_option (pending_intr_nr \<circ> pt_of 0)
     (run [(env_at 0, Create_periodic_time 0 0 1000000 0 0 None 0),
           (env_at 1000000, Timer_expiry 0),
           (env_at 1000000, Pt_update_irq 0),
           (env_at 1100000, Pt_save_timer 0),
           (env_at 4294967296000000, Pt_restore_timer 0)]
        (hvm_boot HVMPTM_no_delay_for_missed_ticks)) = Some 0"
  by (simp add: eval_defs)

text \<open>
  C1, amended. Along every sequence of the operations and expiries in which \<open>pt_reset\<close>
  runs only on lists with no issued record, and each expiry of an issued record and each
  restore over issued records starts from counters that the added ticks fit, a record with
  \<open>irq_issued\<close> set has \<open>pending_intr_nr\<close> at least 1 at the end, when that held of
  every record at the start. The conditions are on the state each step starts from; that
  the counters do not drop is derived from \<open>pt_timer_fn\<close> and
  \<open>pt_process_missed_ticks\<close>.
\<close>

theorem issued_implies_pending_when_counters_fit:
  assumes "run xs s = Some s'"
      and "all_steps counters_fit xs s"
      and "\<forall>q. irq_issued (pts s q) \<longrightarrow> pending_intr_nr (pts s q) \<noteq> 0"
  shows "irq_issued (pts s' q) \<longrightarrow> pending_intr_nr (pts s' q) \<noteq> 0"
  using assms
proof (induction xs arbitrary: s)
  case Nil
  then show ?case by simp
next
  case (Cons x xs)
  from Cons.prems(1) obtain s1 where
    st: "step (fst x) (snd x) s = Some s1" and r: "run xs s1 = Some s'"
    by (auto split: option.splits)
  from Cons.prems(2) st have g: "counters_fit s (fst x, snd x)"
    and gs: "all_steps counters_fit xs s1" by simp_all
  have "\<forall>q. irq_issued (pts s1 q) \<longrightarrow> pending_intr_nr (pts s1 q) \<noteq> 0"
    using step_keeps_issued_pending [OF st g Cons.prems(3)] by blast
  with Cons.IH [OF r gs] show ?case by blast
qed

text \<open>
  Create, reset of the unissued timer, expiry, selection, deschedule from 1.6 ms to 5.7 ms
  (4 ticks missed), expiry: the record is issued with 6 ticks pending.
\<close>

theorem issued_implies_pending_when_counters_fit_witness:
  "\<exists>s'. run [(env_at 0, Create_periodic_time 0 0 1000000 0 0 None 0),
             (env_at 500000, Pt_reset 0),
             (env_at 1500000, Timer_expiry 0),
             (env_at 1500000, Pt_update_irq 0),
             (env_at 1600000, Pt_save_timer 0),
             (env_at 5700000, Pt_restore_timer 0),
             (env_at 6500000, Timer_expiry 0)]
          (hvm_boot HVMPTM_no_delay_for_missed_ticks) = Some s'
        \<and> irq_issued (pts s' 0) \<and> pending_intr_nr (pts s' 0) = 6
        \<and> pending_intr_nr (pts s' 0) \<noteq> 0"
proof -
  let ?xs = "[(env_at 0, Create_periodic_time 0 0 1000000 0 0 None 0),
             (env_at 500000, Pt_reset 0),
             (env_at 1500000, Timer_expiry 0),
             (env_at 1500000, Pt_update_irq 0),
             (env_at 1600000, Pt_save_timer 0),
             (env_at 5700000, Pt_restore_timer 0),
             (env_at 6500000, Timer_expiry 0)]"
  let ?s = "hvm_boot HVMPTM_no_delay_for_missed_ticks"
  have g: "all_steps counters_fit ?xs ?s"
    by (simp add: eval_defs ticks_fit_def expiry_fits_def)
  have i: "\<forall>q. irq_issued (pts ?s q) \<longrightarrow> pending_intr_nr (pts ?s q) \<noteq> 0"
    by (simp add: hvm_boot_def pt_blank_def)
  have "\<exists>s'. run ?xs ?s = Some s' \<and> irq_issued (pts s' 0) \<and> pending_intr_nr (pts s' 0) = 6"
    by (simp add: eval_defs)
  then obtain s' where r: "run ?xs ?s = Some s'" and ii: "irq_issued (pts s' 0)"
    and six: "pending_intr_nr (pts s' 0) = 6" by blast
  from issued_implies_pending_when_counters_fit [OF r g i, of 0] ii
  have "pending_intr_nr (pts s' 0) \<noteq> 0" by simp
  with r ii six show ?thesis by blast
qed

text \<open>
  C2, as stated, fails. In mode \<open>no_missed_ticks_pending\<close> a 1 ms timer that expires at
  1 ms and again at 2 ms, with no acknowledgement in between, has two ticks pending.
\<close>

theorem pending_exceeds_one_in_no_missed_ticks_pending:
  "timer_mode_param (hvm_boot HVMPTM_no_missed_ticks_pending) = HVMPTM_no_missed_ticks_pending
   \<and> map_option (pending_intr_nr \<circ> pt_of 0)
       (run [(env_at 0, Create_periodic_time 0 0 1000000 0 0 None 0),
             (env_at 1000000, Timer_expiry 0),
             (env_at 2000000, Timer_expiry 0)]
          (hvm_boot HVMPTM_no_missed_ticks_pending)) = Some 2"
  by (simp add: eval_defs)

lemma run_keeps_single_pending:
  assumes "run xs s = Some s'"
      and "all_steps expiry_after_ack xs s"
      and "timer_mode_param s = HVMPTM_no_missed_ticks_pending"
      and "\<forall>q. pending_intr_nr (pts s q) \<le> 1"
  shows "pending_intr_nr (pts s' q) \<le> 1"
  using assms
proof (induction xs arbitrary: s)
  case Nil
  then show ?case by simp
next
  case (Cons x xs)
  from Cons.prems(1) obtain s1 where
    st: "step (fst x) (snd x) s = Some s1" and r: "run xs s1 = Some s'"
    by (auto split: option.splits)
  from Cons.prems(2) st have g: "expiry_after_ack s (fst x, snd x)"
    and gs: "all_steps expiry_after_ack xs s1" by simp_all
  have "timer_mode_param s1 = HVMPTM_no_missed_ticks_pending"
    and "\<forall>q. pending_intr_nr (pts s1 q) \<le> 1"
    using step_keeps_single_pending [OF st g Cons.prems(3,4)] by blast+
  with Cons.IH [OF r gs] show ?case by blast
qed

text \<open>
  C2, amended. In mode \<open>no_missed_ticks_pending\<close>, \<open>pending_intr_nr\<close> never exceeds 1
  along a sequence of operations in which a record's timer expires only while that record
  has no tick pending (started with at most one tick pending per record); and each run of
  \<open>pt_timer_fn\<close> adds exactly one tick, whatever is pending already.
\<close>

theorem single_pending_when_expiry_follows_ack:
  assumes "timer_mode_param s = HVMPTM_no_missed_ticks_pending"
  shows "(run xs s = Some s' \<and> all_steps expiry_after_ack xs s
            \<and> (\<forall>q. pending_intr_nr (pts s q) \<le> 1)
          \<longrightarrow> pending_intr_nr (pts s' q) \<le> 1)
       \<and> (pt_timer_fn e p s = Some s'' \<longrightarrow>
            pending_intr_nr (pts s'' p) = pending_intr_nr (pts s p) + 1)"
  using assms run_keeps_single_pending [of xs s s' q] pt_timer_fn_no_missed [of s e p s'']
  by blast

text \<open>
  Create, expiry, selection, acknowledgement, deschedule from 1.3 ms to 5.7 ms, expiry at
  6 ms: one tick pending. And \<open>pt_timer_fn\<close> run on a record with one tick pending
  leaves two.
\<close>

theorem single_pending_when_expiry_follows_ack_witness:
  "\<exists>s'. run [(env_at 0, Create_periodic_time 0 0 1000000 0 0 None 0),
             (env_at 1000000, Timer_expiry 0),
             (env_at 1000000, Pt_update_irq 0),
             (env_at 1200000, Pt_intr_post 0 \<lparr>intack_source = hvm_intsrc_pic, intack_vector = 8\<rparr>),
             (env_at 1300000, Pt_save_timer 0),
             (env_at 5700000, Pt_restore_timer 0),
             (env_at 6000000, Timer_expiry 0)]
          (hvm_boot HVMPTM_no_missed_ticks_pending) = Some s'
        \<and> pending_intr_nr (pts s' 0) = 1 \<and> pending_intr_nr (pts s' 0) \<le> 1
        \<and> (\<exists>s''. pt_timer_fn (env_at 1000000) 0
                     (hvm_issued\<lparr>timer_mode_param := HVMPTM_no_missed_ticks_pending\<rparr>) = Some s''
               \<and> pending_intr_nr (pts s'' 0) = 2)"
proof -
  let ?xs = "[(env_at 0, Create_periodic_time 0 0 1000000 0 0 None 0),
             (env_at 1000000, Timer_expiry 0),
             (env_at 1000000, Pt_update_irq 0),
             (env_at 1200000, Pt_intr_post 0 \<lparr>intack_source = hvm_intsrc_pic, intack_vector = 8\<rparr>),
             (env_at 1300000, Pt_save_timer 0),
             (env_at 5700000, Pt_restore_timer 0),
             (env_at 6000000, Timer_expiry 0)]"
  let ?s = "hvm_boot HVMPTM_no_missed_ticks_pending"
  have m: "timer_mode_param ?s = HVMPTM_no_missed_ticks_pending" by (simp add: hvm_boot_def)
  have g: "all_steps expiry_after_ack ?xs ?s" by (simp add: eval_defs)
  have i: "\<forall>q. pending_intr_nr (pts ?s q) \<le> 1" by (simp add: hvm_boot_def pt_blank_def)
  have "\<exists>s'. run ?xs ?s = Some s' \<and> pending_intr_nr (pts s' 0) = 1" by (simp add: eval_defs)
  then obtain s' where r: "run ?xs ?s = Some s'" and one: "pending_intr_nr (pts s' 0) = 1"
    by blast
  from single_pending_when_expiry_follows_ack [OF m, of ?xs s' 0] r g i
  have le: "pending_intr_nr (pts s' 0) \<le> 1" by blast
  let ?t = "hvm_issued\<lparr>timer_mode_param := HVMPTM_no_missed_ticks_pending\<rparr>"
  have mt: "timer_mode_param ?t = HVMPTM_no_missed_ticks_pending" by simp
  have "\<exists>s''. pt_timer_fn (env_at 1000000) 0 ?t = Some s''"
    by (simp add: hvm_issued_def pt_periodic_def eval_defs)
  then obtain s'' where f: "pt_timer_fn (env_at 1000000) 0 ?t = Some s''" by blast
  from single_pending_when_expiry_follows_ack [OF mt, of "[]" ?t 0 "env_at 1000000" 0 s''] f
  have "pending_intr_nr (pts s'' 0) = pending_intr_nr (pts ?t 0) + 1" by blast
  then have "pending_intr_nr (pts s'' 0) = 2"
    by (simp add: hvm_issued_def pt_periodic_def)
  with r one le f show ?thesis by blast
qed

end
